theory Spec2Isabelle
  imports Main
begin

section \<open>Data model\<close>

text \<open>
  The persistence layer is a Postgres database reached through the Supabase client. Its
  three tables that the access gate and the billing adapter touch are modelled as lists of
  rows; the columns are those of the migration
  \<^verbatim>\<open>supabase/migrations/20250702110143_blue_morning.sql\<close>. Timestamps are integers
  (milliseconds), identifiers and months are strings.
\<close>

record user_row =
  users_id :: string
  users_email :: string
  users_name :: string
  password_hash :: string
  stripe_customer_id :: "string option"

record subscription_row =
  user_id :: string
  row_plan :: string
  row_status :: string
  stripe_subscription_id :: "string option"
  current_period_start :: "int option"
  current_period_end :: "int option"

record usage_row =
  usage_user_id :: string
  month :: string
  requests_used :: int
  request_limit :: int

record store =
  users :: "user_row list"
  subscriptions :: "subscription_row list"
  usage_tracking :: "usage_row list"

definition empty_store :: store where
  "empty_store = \<lparr>users = [], subscriptions = [], usage_tracking = []\<rparr>"

text \<open>
  Errors are values. \<open>PostgrestError code\<close> is the plain error object that the Supabase
  client returns in \<open>{data, error}\<close> and that the \<open>Database\<close> helpers rethrow;
  \<open>Error msg\<close> is a JavaScript \<open>Error\<close> (a \<open>TypeError\<close>, a JWT verification error,
  \<open>new Error('Invalid webhook signature')\<close>).
\<close>

datatype error = PostgrestError string | Error string

text \<open>\<open>error instanceof Error ? error.message : 'Unknown error'\<close>\<close>

fun error_message :: "error \<Rightarrow> string" where
  "error_message (Error msg) = msg"
| "error_message (PostgrestError c) = ''Unknown error''"

text \<open>JSON values of response bodies, and an HTTP response \<open>res.status(n).json(b)\<close>.\<close>

datatype json = JNull | JBool bool | JNum int | JStr string | JList "json list"
  | JObj "(string \<times> json) list"

record response =
  http_status :: nat
  json_body :: json

text \<open>The identity that \<open>authenticateToken\<close> attaches to the request as \<open>req.user\<close>.\<close>

record req_subscription =
  plan :: string
  status :: string
  requestsUsed :: int
  requestLimit :: int

record req_user =
  id :: string
  email :: string
  stripeCustomerId :: "string option"
  subscription :: req_subscription

text \<open>
  An inbound request: the \<open>Authorization\<close> header, if any, and the parsed body. What a
  request has reached is recorded in a trace of events, next to the store and \<open>req.user\<close>.
\<close>

record 'b request =
  authorization :: "string option"
  body :: 'b

datatype event = RecordUsageInvoked | HandlerInvoked string

record ctx =
  ctx_store :: store
  ctx_user :: "req_user option"
  ctx_trace :: "event list"

text \<open>
  An Express middleware either ends the request with a response (\<open>Some r\<close>) or calls
  \<open>next()\<close> (\<open>None\<close>); in both cases its effects on the store stay.
\<close>

type_synonym 'b middleware = "'b request \<Rightarrow> ctx \<Rightarrow> response option \<times> ctx"

fun run_chain :: "'b middleware list \<Rightarrow> 'b request \<Rightarrow> ctx \<Rightarrow> response option \<times> ctx" where
  "run_chain [] req c = (None, c)"
| "run_chain (m # ms) req c =
     (case m req c of
        (Some r, c') \<Rightarrow> (Some r, c')
      | (None, c') \<Rightarrow> run_chain ms req c')"

section \<open>Plan limits (\<open>Database.getRequestLimitForPlan\<close>)\<close>

text \<open>
  \<^verbatim>\<open>
  static getRequestLimitForPlan(plan) {
    const limits = { 'free': 5, 'basic': 50, 'pro': -1, 'pro_yearly': -1 };
    return limits[plan] || 5;
  }
  \<close>
  \<open>limits\<close> is an object literal, so \<open>limits[plan]\<close> is a property lookup along the
  prototype chain: for a key that is not an own property but names a member of
  \<open>Object.prototype\<close> it yields that member (a function or object, hence truthy), not
  \<open>undefined\<close>. The result is therefore a JavaScript value that is a number or such a
  member.
\<close>

datatype js_value = Num int | PrototypeMember string

definition limits :: "(string \<times> int) list" where
  "limits = [(''free'', 5), (''basic'', 50), (''pro'', - 1), (''pro_yearly'', - 1)]"

definition object_prototype_keys :: "string list" where
  "object_prototype_keys =
     [''constructor'', ''__defineGetter__'', ''__defineSetter__'', ''hasOwnProperty'',
      ''__lookupGetter__'', ''__lookupSetter__'', ''isPrototypeOf'', ''propertyIsEnumerable'',
      ''toString'', ''valueOf'', ''__proto__'', ''toLocaleString'']"

definition getRequestLimitForPlan :: "string \<Rightarrow> js_value" where
  "getRequestLimitForPlan p =
     (case map_of limits p of
        Some n \<Rightarrow> (if n \<noteq> 0 then Num n else Num 5)
      | None \<Rightarrow> (if p \<in> set object_prototype_keys then PrototypeMember p else Num 5))"

text \<open>\<open>subscription?.plan || 'free'\<close>: a missing row, a null or an empty plan give \<open>'free'\<close>.\<close>

definition plan_or_free :: "subscription_row option \<Rightarrow> string" where
  "plan_or_free sub = (case sub of None \<Rightarrow> ''free'' | Some r \<Rightarrow> (if row_plan r = [] then ''free'' else row_plan r))"

definition status_or_active :: "subscription_row option \<Rightarrow> string" where
  "status_or_active sub = (case sub of None \<Rightarrow> ''active'' | Some r \<Rightarrow> (if row_status r = [] then ''active'' else row_status r))"

section \<open>The enforce step (\<open>checkSubscriptionLimits\<close>) and the plan gate (\<open>requirePlan\<close>)\<close>

definition authentication_required :: response where
  "authentication_required =
     \<lparr>http_status = 401,
      json_body = JObj [(''success'', JBool False), (''message'', JStr ''Authentication required'')]\<rparr>"

definition subscription_required :: response where
  "subscription_required =
     \<lparr>http_status = 403,
      json_body = JObj [(''success'', JBool False), (''message'', JStr ''Active subscription required''),
                        (''code'', JStr ''SUBSCRIPTION_REQUIRED'')]\<rparr>"

definition limit_exceeded :: "int \<Rightarrow> int \<Rightarrow> response" where
  "limit_exceeded used lim =
     \<lparr>http_status = 429,
      json_body = JObj [(''success'', JBool False),
                        (''message'', JStr ''Monthly request limit exceeded. Please upgrade your plan.''),
                        (''code'', JStr ''LIMIT_EXCEEDED''),
                        (''requestsUsed'', JNum used), (''requestLimit'', JNum lim)]\<rparr>"

definition checkSubscriptionLimits :: "'b middleware" where
  "checkSubscriptionLimits req c =
     (case ctx_user c of
        None \<Rightarrow> (Some authentication_required, c)
      | Some u \<Rightarrow>
          (let s = subscription u in
           if status s \<noteq> ''active'' \<and> plan s \<noteq> ''free'' then (Some subscription_required, c)
           else if requestLimit s \<noteq> - 1 \<and> requestsUsed s \<ge> requestLimit s
             then (Some (limit_exceeded (requestsUsed s) (requestLimit s)), c)
           else (None, c)))"

text \<open>\<open>requiredPlans.join(' or ')\<close>\<close>

fun join_or :: "string list \<Rightarrow> string" where
  "join_or [] = []"
| "join_or [p] = p"
| "join_or (p # ps) = p @ '' or '' @ join_or ps"

definition plan_upgrade_required :: "string list \<Rightarrow> string \<Rightarrow> response" where
  "plan_upgrade_required requiredPlans current =
     \<lparr>http_status = 403,
      json_body = JObj [(''success'', JBool False),
                        (''message'', JStr (''This feature requires '' @ join_or requiredPlans @ '' plan'')),
                        (''code'', JStr ''PLAN_UPGRADE_REQUIRED''),
                        (''currentPlan'', JStr current),
                        (''requiredPlans'', JList (map JStr requiredPlans))]\<rparr>"

definition requirePlan :: "string list \<Rightarrow> 'b middleware" where
  "requirePlan requiredPlans req c =
     (case ctx_user c of
        None \<Rightarrow> (Some authentication_required, c)
      | Some u \<Rightarrow>
          (if plan (subscription u) \<notin> set requiredPlans
           then (Some (plan_upgrade_required requiredPlans (plan (subscription u))), c)
           else (None, c)))"

section \<open>Database helpers (\<open>config/database.js\<close>)\<close>

text \<open>
  The database is taken to be reachable, so the only errors are those the tables decide:
  \<open>.single()\<close> answers with error code \<open>PGRST116\<close> unless exactly one row matches (the
  helpers themselves test for that code), and an insert fails on a violated constraint of
  the schema. A helper written \<open>if (error) throw error\<close> raises on \<open>PGRST116\<close>; one
  written \<open>if (error && error.code !== 'PGRST116') throw error\<close> returns \<open>null\<close>.
\<close>

definition single :: "'a list \<Rightarrow> error + 'a" where
  "single rows = (case rows of [r] \<Rightarrow> Inr r | _ \<Rightarrow> Inl (PostgrestError ''PGRST116''))"

definition getUserByEmail :: "string \<Rightarrow> store \<Rightarrow> user_row option" where
  "getUserByEmail e s =
     (case single (filter (\<lambda>u. users_email u = e) (users s)) of
        Inr u \<Rightarrow> Some u
      | Inl err \<Rightarrow> None)"

definition getUserById :: "string \<Rightarrow> store \<Rightarrow> error + user_row option" where
  "getUserById i s =
     (case single (filter (\<lambda>u. users_id u = i) (users s)) of
        Inr u \<Rightarrow> Inr (Some u)
      | Inl err \<Rightarrow> Inl err)"

definition getSubscriptionByUserId :: "string \<Rightarrow> store \<Rightarrow> subscription_row option" where
  "getSubscriptionByUserId userId s =
     (case single (filter (\<lambda>r. user_id r = userId) (subscriptions s)) of
        Inr r \<Rightarrow> Some r
      | Inl err \<Rightarrow> None)"

definition updateSubscription ::
  "string \<Rightarrow> (subscription_row \<Rightarrow> subscription_row) \<Rightarrow> store \<Rightarrow> error + subscription_row \<times> store" where
  "updateSubscription userId updates s =
     (case single (filter (\<lambda>r. user_id r = userId) (subscriptions s)) of
        Inl err \<Rightarrow> Inl err
      | Inr r \<Rightarrow>
          Inr (updates r,
               s\<lparr>subscriptions := map (\<lambda>r. if user_id r = userId then updates r else r) (subscriptions s)\<rparr>))"

definition getSubscriptionByStripeId :: "string \<Rightarrow> store \<Rightarrow> error + subscription_row" where
  "getSubscriptionByStripeId stripeSubscriptionId s =
     single (filter (\<lambda>r. stripe_subscription_id r = Some stripeSubscriptionId) (subscriptions s))"

text \<open>
  The insert of a new usage row: \<open>request_limit\<close> is an integer column that is not
  null, \<open>user_id\<close> references \<open>users(id)\<close>, and \<open>(user_id, month)\<close> is unique. A
  limit that is a function is left out of the JSON sent to the database, so the column is
  null (code 23502); the object \<open>Object.prototype\<close> is sent as an object, which is no
  integer (code 22P02).
\<close>

definition insert_usage :: "string \<Rightarrow> string \<Rightarrow> js_value \<Rightarrow> store \<Rightarrow> error + usage_row \<times> store" where
  "insert_usage userId m lim s =
     (case lim of
        PrototypeMember k \<Rightarrow>
          (if k = ''__proto__'' then Inl (PostgrestError ''22P02'') else Inl (PostgrestError ''23502''))
      | Num n \<Rightarrow>
          (if userId \<notin> set (map users_id (users s)) then Inl (PostgrestError ''23503'')
           else if (userId, m) \<in> set (map (\<lambda>r. (usage_user_id r, month r)) (usage_tracking s))
             then Inl (PostgrestError ''23505'')
           else (let row = \<lparr>usage_user_id = userId, month = m, requests_used = 0, request_limit = n\<rparr>
                 in Inr (row, s\<lparr>usage_tracking := usage_tracking s @ [row]\<rparr>))))"

definition getOrCreateUsageTracking :: "string \<Rightarrow> string \<Rightarrow> store \<Rightarrow> error + usage_row \<times> store" where
  "getOrCreateUsageTracking userId m s =
     (case filter (\<lambda>r. usage_user_id r = userId \<and> month r = m) (usage_tracking s) of
        [existing] \<Rightarrow> Inr (existing, s)
      | _ \<Rightarrow>
          (let sub = getSubscriptionByUserId userId s;
               requestLimit = getRequestLimitForPlan (plan_or_free sub)
           in insert_usage userId m requestLimit s))"

text \<open>
  \<open>Database.incrementUsage\<close> (named apart from the middleware \<open>incrementUsage\<close>):
  \<^verbatim>\<open>
  const { data, error } = await supabase
    .from('usage_tracking')
    .update({ requests_used: supabase.sql`requests_used + 1` })
    .eq('user_id', userId).eq('month', month).select().single();
  \<close>
  \<open>supabase\<close> is the client that \<open>createClient\<close> returned, and it has no member \<open>sql\<close>.
  The argument of \<open>update\<close> is evaluated before any request is built, so the tagged
  template raises a \<open>TypeError\<close> inside the \<open>try\<close>; the \<open>catch\<close> logs it and throws it
  again. The helper raises for every user, month and store, and writes nothing.
\<close>

definition Database_incrementUsage :: "string \<Rightarrow> string \<Rightarrow> store \<Rightarrow> error + usage_row \<times> store" where
  "Database_incrementUsage userId m s = Inl (Error ''supabase.sql is not a function'')"

definition resetMonthlyUsage :: "string \<Rightarrow> string \<Rightarrow> store \<Rightarrow> error + usage_row \<times> store" where
  "resetMonthlyUsage userId m s =
     (case single (filter (\<lambda>r. usage_user_id r = userId \<and> month r = m) (usage_tracking s)) of
        Inl err \<Rightarrow> Inl err
      | Inr r \<Rightarrow>
          Inr (r\<lparr>requests_used := 0\<rparr>,
               s\<lparr>usage_tracking :=
                    map (\<lambda>r. if usage_user_id r = userId \<and> month r = m
                              then r\<lparr>requests_used := 0\<rparr> else r)
                        (usage_tracking s)\<rparr>))"

section \<open>The authenticate step\<close>

text \<open>
  \<open>authHeader && authHeader.split(' ')[1]\<close>: the second of the pieces between single
  spaces. \<open>jwt.verify\<close> with the server's secret is a parameter \<open>verify\<close>: it returns the
  payload that was signed at registration or login (user id, email and the subscription
  as it was then), or raises.
\<close>

fun split_on :: "char \<Rightarrow> string \<Rightarrow> string list" where
  "split_on sep [] = [[]]"
| "split_on sep (x # xs) =
     (if x = sep then [] # split_on sep xs
      else (case split_on sep xs of w # ws \<Rightarrow> (x # w) # ws | [] \<Rightarrow> [[x]]))"

definition token_of :: "string option \<Rightarrow> string option" where
  "token_of authHeader =
     (case authHeader of
        None \<Rightarrow> None
      | Some h \<Rightarrow> (if h = [] then None
                   else (case split_on CHR '' '' h of a # t # rest \<Rightarrow> Some t | _ \<Rightarrow> None)))"

definition access_token_required :: response where
  "access_token_required =
     \<lparr>http_status = 401,
      json_body = JObj [(''success'', JBool False), (''message'', JStr ''Access token required'')]\<rparr>"

definition user_not_found :: response where
  "user_not_found =
     \<lparr>http_status = 401,
      json_body = JObj [(''success'', JBool False), (''message'', JStr ''User not found'')]\<rparr>"

definition invalid_or_expired_token :: response where
  "invalid_or_expired_token =
     \<lparr>http_status = 403,
      json_body = JObj [(''success'', JBool False), (''message'', JStr ''Invalid or expired token'')]\<rparr>"

text \<open>\<open>authenticateToken\<close> of \<open>middleware/auth.js\<close>, which reads the database.\<close>

definition authenticateToken :: "(string \<Rightarrow> error + req_user) \<Rightarrow> string \<Rightarrow> 'b middleware" where
  "authenticateToken verify currentMonth req c =
     (case token_of (authorization req) of
        None \<Rightarrow> (Some access_token_required, c)
      | Some token \<Rightarrow>
          (if token = [] then (Some access_token_required, c)
           else (case verify token of
                   Inl err \<Rightarrow> (Some invalid_or_expired_token, c)
                 | Inr decoded \<Rightarrow>
                     (case getUserById (id decoded) (ctx_store c) of
                        Inl err \<Rightarrow> (Some invalid_or_expired_token, c)
                      | Inr None \<Rightarrow> (Some user_not_found, c)
                      | Inr (Some user) \<Rightarrow>
                          (let sub = getSubscriptionByUserId (users_id user) (ctx_store c)
                           in case getOrCreateUsageTracking (users_id user) currentMonth (ctx_store c) of
                                Inl err \<Rightarrow> (Some invalid_or_expired_token, c)
                              | Inr (usage, s') \<Rightarrow>
                                  (None,
                                   c\<lparr>ctx_store := s',
                                     ctx_user := Some
                                       \<lparr>id = users_id user, email = users_email user,
                                        stripeCustomerId = stripe_customer_id user,
                                        subscription =
                                          \<lparr>plan = plan_or_free sub, status = status_or_active sub,
                                           requestsUsed = requests_used usage,
                                           requestLimit = request_limit usage\<rparr>\<rparr>\<rparr>))))))"

text \<open>
  \<open>authenticateToken\<close> of \<open>middleware/auth.ts\<close> (and its JavaScript copy), which the
  TypeScript routes import together with \<open>AuthenticatedRequest\<close>: \<open>req.user = decoded\<close>.
\<close>

definition authenticateToken_ts :: "(string \<Rightarrow> error + req_user) \<Rightarrow> 'b middleware" where
  "authenticateToken_ts verify req c =
     (case token_of (authorization req) of
        None \<Rightarrow> (Some access_token_required, c)
      | Some token \<Rightarrow>
          (if token = [] then (Some access_token_required, c)
           else (case verify token of
                   Inl err \<Rightarrow> (Some invalid_or_expired_token, c)
                 | Inr decoded \<Rightarrow> (None, c\<lparr>ctx_user := Some decoded\<rparr>))))"

section \<open>Recording usage, validation, handlers and the routes\<close>

text \<open>
  The middleware \<open>incrementUsage\<close>, the record-usage step. That it was invoked is
  recorded in the trace. For a user whose limit is not \<open>-1\<close> it calls
  \<open>Database.incrementUsage\<close>; an error of that helper is logged and swallowed, and
  \<open>next()\<close> is called in every case.
\<close>

definition incrementUsage :: "string \<Rightarrow> 'b middleware" where
  "incrementUsage currentMonth req c =
     (let c0 = c\<lparr>ctx_trace := ctx_trace c @ [RecordUsageInvoked]\<rparr>
      in case ctx_user c of
           None \<Rightarrow> (None, c0)
         | Some u \<Rightarrow>
             (if requestLimit (subscription u) \<noteq> - 1
              then (case Database_incrementUsage (id u) currentMonth (ctx_store c) of
                      Inl err \<Rightarrow> (None, c0)
                    | Inr (row, s') \<Rightarrow> (None, c0\<lparr>ctx_store := s'\<rparr>))
              else (None, c0)))"

text \<open>
  \<open>validateRequest(schema)\<close>: the Joi schema is a parameter giving the error details
  (field and message) of a body, \<open>None\<close> for a valid one.
\<close>

definition validation_error :: "(string \<times> string) list \<Rightarrow> response" where
  "validation_error details =
     \<lparr>http_status = 400,
      json_body = JObj [(''success'', JBool False), (''message'', JStr ''Validation error''),
                        (''details'', JList (map (\<lambda>(f, m). JObj [(''field'', JStr f), (''message'', JStr m)]) details))]\<rparr>"

definition validateRequest :: "('b \<Rightarrow> (string \<times> string) list option) \<Rightarrow> 'b middleware" where
  "validateRequest schema req c =
     (case schema (body req) of
        Some details \<Rightarrow> (Some (validation_error details), c)
      | None \<Rightarrow> (None, c))"

text \<open>
  The last function of a route is its handler. It calls the generation provider and
  answers with the result or with status 500; what it answers is a parameter \<open>act\<close>, and
  that it ran is recorded in the trace.
\<close>

definition handler :: "string \<Rightarrow> ('b request \<Rightarrow> ctx \<Rightarrow> response) \<Rightarrow> 'b middleware" where
  "handler name act req c = (Some (act req c), c\<lparr>ctx_trace := ctx_trace c @ [HandlerInvoked name]\<rparr>)"

text \<open>The routes, as the routers register them.\<close>

definition recipes_generate ::
  "(string \<Rightarrow> error + req_user) \<Rightarrow> string \<Rightarrow> ('b \<Rightarrow> (string \<times> string) list option)
     \<Rightarrow> ('b request \<Rightarrow> ctx \<Rightarrow> response) \<Rightarrow> 'b middleware list" where
  "recipes_generate verify currentMonth recipeGenerationSchema act =
     [authenticateToken verify currentMonth,
      checkSubscriptionLimits,
      validateRequest recipeGenerationSchema,
      incrementUsage currentMonth,
      handler ''POST /recipes/generate'' act]"

definition recipes_substitutions ::
  "(string \<Rightarrow> error + req_user) \<Rightarrow> string \<Rightarrow> ('b \<Rightarrow> (string \<times> string) list option)
     \<Rightarrow> ('b request \<Rightarrow> ctx \<Rightarrow> response) \<Rightarrow> 'b middleware list" where
  "recipes_substitutions verify currentMonth substitutionSchema act =
     [authenticateToken verify currentMonth,
      requirePlan [''basic'', ''pro'', ''pro_yearly''],
      checkSubscriptionLimits,
      validateRequest substitutionSchema,
      incrementUsage currentMonth,
      handler ''POST /recipes/substitutions'' act]"

definition meal_plans_generate ::
  "(string \<Rightarrow> error + req_user) \<Rightarrow> string \<Rightarrow> ('b \<Rightarrow> (string \<times> string) list option)
     \<Rightarrow> ('b request \<Rightarrow> ctx \<Rightarrow> response) \<Rightarrow> 'b middleware list" where
  "meal_plans_generate verify currentMonth mealPlanSchema act =
     [authenticateToken verify currentMonth,
      checkSubscriptionLimits,
      validateRequest mealPlanSchema,
      incrementUsage currentMonth,
      handler ''POST /meal-plans/generate'' act]"

definition chat_message ::
  "('b \<Rightarrow> (string \<times> string) list option) \<Rightarrow> ('b request \<Rightarrow> ctx \<Rightarrow> response) \<Rightarrow> 'b middleware list" where
  "chat_message chatSchema act =
     [validateRequest chatSchema, handler ''POST /chat/message'' act]"

definition nutrition_analyze ::
  "('b \<Rightarrow> (string \<times> string) list option) \<Rightarrow> ('b request \<Rightarrow> ctx \<Rightarrow> response) \<Rightarrow> 'b middleware list" where
  "nutrition_analyze nutritionAnalysisSchema act =
     [validateRequest nutritionAnalysisSchema, handler ''POST /nutrition/analyze'' act]"

text \<open>
  \<open>POST /images/analyze\<close> of \<open>image.routes.ts\<close>; \<open>upload.single('image')\<close> parses the
  multipart body and is part of the handler here.
\<close>

definition images_analyze ::
  "(string \<Rightarrow> error + req_user) \<Rightarrow> ('b request \<Rightarrow> ctx \<Rightarrow> response) \<Rightarrow> 'b middleware list" where
  "images_analyze verify act =
     [authenticateToken_ts verify,
      requirePlan [''pro'', ''pro_yearly''],
      checkSubscriptionLimits,
      handler ''POST /images/analyze'' act]"

text \<open>A request starts with no identity attached and an empty trace.\<close>

definition fresh :: "store \<Rightarrow> ctx" where
  "fresh s = \<lparr>ctx_store = s, ctx_user = None, ctx_trace = []\<rparr>"

section \<open>Registration (\<open>routes/auth.routes.js\<close>)\<close>

text \<open>
  The inserts of \<open>createUser\<close> and \<open>createSubscription\<close>. The database chooses the new
  user's id (\<open>gen_random_uuid()\<close>), a parameter here; \<open>id\<close> is the primary key and
  \<open>email\<close> is unique.
\<close>

definition createUser :: "string \<Rightarrow> string \<Rightarrow> string \<Rightarrow> string \<Rightarrow> store \<Rightarrow> error + user_row \<times> store" where
  "createUser newId e n hashedPassword s =
     (if newId \<in> set (map users_id (users s)) \<or> e \<in> set (map users_email (users s))
      then Inl (PostgrestError ''23505'')
      else (let row = \<lparr>users_id = newId, users_email = e, users_name = n,
                        password_hash = hashedPassword, stripe_customer_id = None\<rparr>
            in Inr (row, s\<lparr>users := users s @ [row]\<rparr>)))"

definition createSubscription :: "string \<Rightarrow> string \<Rightarrow> string \<Rightarrow> store \<Rightarrow> error + subscription_row \<times> store" where
  "createSubscription userId p st s =
     (if userId \<notin> set (map users_id (users s)) then Inl (PostgrestError ''23503'')
      else (let row = \<lparr>user_id = userId, row_plan = p, row_status = st,
                        stripe_subscription_id = None, current_period_start = None,
                        current_period_end = None\<rparr>
            in Inr (row, s\<lparr>subscriptions := subscriptions s @ [row]\<rparr>)))"

definition user_already_exists :: response where
  "user_already_exists =
     \<lparr>http_status = 400,
      json_body = JObj [(''success'', JBool False), (''message'', JStr ''User already exists'')]\<rparr>"

definition registration_failed :: "error \<Rightarrow> response" where
  "registration_failed err =
     \<lparr>http_status = 500,
      json_body = JObj [(''success'', JBool False), (''message'', JStr ''Registration failed''),
                        (''error'', JStr (error_message err))]\<rparr>"

text \<open>
  The limit that registration embeds in the token and the response,
  \<open>Database.getRequestLimitForPlan(subscription.plan)\<close>, as JSON: a function has no JSON
  form and is left out by \<open>JSON.stringify\<close>.
\<close>

definition limit_field :: "js_value \<Rightarrow> (string \<times> json) list" where
  "limit_field v = (case v of Num n \<Rightarrow> [(''requestLimit'', JNum n)] | PrototypeMember k \<Rightarrow> [])"

definition registered :: "string \<Rightarrow> user_row \<Rightarrow> subscription_row \<Rightarrow> response" where
  "registered token user sub =
     \<lparr>http_status = 201,
      json_body = JObj [(''success'', JBool True),
        (''data'', JObj [(''token'', JStr token),
           (''user'', JObj [(''id'', JStr (users_id user)), (''email'', JStr (users_email user)),
              (''name'', JStr (users_name user)),
              (''subscription'', JObj ([(''plan'', JStr (row_plan sub)), (''status'', JStr (row_status sub)),
                 (''requestsUsed'', JNum 0)] @ limit_field (getRequestLimitForPlan (row_plan sub))))])]),
        (''message'', JStr ''User registered successfully'')]\<rparr>"

text \<open>
  \<open>POST /auth/register\<close> after validation of the body. \<open>jwt.sign\<close> is the parameter
  \<open>sign\<close>; the payload it signs is given by the same JSON as the response's \<open>user\<close>
  without the name, so it carries the subscription as it is at this moment.
\<close>

definition token_payload :: "user_row \<Rightarrow> subscription_row \<Rightarrow> json" where
  "token_payload user sub =
     JObj [(''id'', JStr (users_id user)), (''email'', JStr (users_email user)),
           (''subscription'', JObj ([(''plan'', JStr (row_plan sub)), (''status'', JStr (row_status sub)),
              (''requestsUsed'', JNum 0)] @ limit_field (getRequestLimitForPlan (row_plan sub))))]"

definition register ::
  "(json \<Rightarrow> string) \<Rightarrow> string \<Rightarrow> string \<Rightarrow> string \<Rightarrow> string \<Rightarrow> string \<Rightarrow> store \<Rightarrow> response \<times> store" where
  "register sign newId e n hashedPassword currentMonth s =
     (case getUserByEmail e s of
        Some existingUser \<Rightarrow> (user_already_exists, s)
      | None \<Rightarrow>
          (case createUser newId e n hashedPassword s of
             Inl err \<Rightarrow> (registration_failed err, s)
           | Inr (user, s1) \<Rightarrow>
               (case createSubscription (users_id user) ''free'' ''active'' s1 of
                  Inl err \<Rightarrow> (registration_failed err, s1)
                | Inr (sub, s2) \<Rightarrow>
                    (case getOrCreateUsageTracking (users_id user) currentMonth s2 of
                       Inl err \<Rightarrow> (registration_failed err, s2)
                     | Inr (usage, s3) \<Rightarrow> (registered (sign (token_payload user sub)) user sub, s3)))))"

section \<open>The billing event adapter (\<open>POST /subscriptions/webhook\<close>)\<close>

text \<open>
  The fields of \<open>event.data.object\<close> that the adapter reads, of a subscription or of an
  invoice: \<open>items_price_ids\<close> are the \<open>items.data[i].price.id\<close>, \<open>invoice_subscription\<close>
  is \<open>invoice.subscription\<close>.
\<close>

record stripe_object =
  object_id :: string
  customer :: string
  object_status :: string
  items_price_ids :: "string list"
  object_period_start :: int
  object_period_end :: int
  invoice_subscription :: "string option"

record stripe_event =
  event_type :: string
  event_object :: stripe_object

text \<open>\<open>SUBSCRIPTION_PLANS\<close> of \<open>services/stripeService\<close> (price, interval and features left out).\<close>

record subscription_plan =
  plan_id :: string
  plan_name :: string
  stripePriceId :: string
  plan_requestLimit :: int

definition SUBSCRIPTION_PLANS :: "subscription_plan list" where
  "SUBSCRIPTION_PLANS =
     [\<lparr>plan_id = ''free'', plan_name = ''Free'', stripePriceId = [], plan_requestLimit = 5\<rparr>,
      \<lparr>plan_id = ''basic'', plan_name = ''Basic Chef'', stripePriceId = ''price_basic_monthly'',
       plan_requestLimit = 50\<rparr>,
      \<lparr>plan_id = ''pro'', plan_name = ''Pro Chef'', stripePriceId = ''price_pro_monthly'',
       plan_requestLimit = - 1\<rparr>,
      \<lparr>plan_id = ''pro_yearly'', plan_name = ''Pro Chef (Yearly)'', stripePriceId = ''price_pro_yearly'',
       plan_requestLimit = - 1\<rparr>]"

definition getPlanByPriceId :: "string \<Rightarrow> subscription_plan option" where
  "getPlanByPriceId priceId = find (\<lambda>p. stripePriceId p = priceId) SUBSCRIPTION_PLANS"

definition getPlanById :: "string \<Rightarrow> subscription_plan option" where
  "getPlanById planId = find (\<lambda>p. plan_id p = planId) SUBSCRIPTION_PLANS"

text \<open>
  \<open>StripeService.handleWebhook\<close>: \<open>stripe.webhooks.constructEvent\<close> with the webhook
  secret is the parameter \<open>constructEvent\<close>; it returns the event or raises.
\<close>

definition handleWebhook ::
  "(string \<Rightarrow> string option \<Rightarrow> error + stripe_event) \<Rightarrow> string \<Rightarrow> string option \<Rightarrow> error + stripe_event" where
  "handleWebhook constructEvent raw signature =
     (case constructEvent raw signature of
        Inl err \<Rightarrow> Inl (Error ''Invalid webhook signature'')
      | Inr ev \<Rightarrow> Inr ev)"

text \<open>
  The branches of the \<open>switch\<close>. Each returns the error it raised, if any, and the store
  as it is at that point: writes done before the error stay.

  In the created/updated branch the user is looked up with
  \<open>Database.getUserByEmail(subscription.customer)\<close>. \<open>items.data[0]\<close> of an empty list is
  \<open>undefined\<close>, whose \<open>.price\<close> raises a \<open>TypeError\<close>. The class \<open>Database\<close> of
  \<open>config/database.js\<close> defines no \<open>updateUsageTracking\<close>, so the call
  \<open>Database.updateUsageTracking(...)\<close> raises a \<open>TypeError\<close> as well.
\<close>

definition undefined_price :: error where
  "undefined_price =
     Error (''Cannot read properties of undefined (reading '' @ [CHR 0x27] @ ''price'' @ [CHR 0x27] @ '')'')"

definition updateUsageTracking_missing :: error where
  "updateUsageTracking_missing = Error ''Database.updateUsageTracking is not a function''"

definition subscription_updated :: "stripe_object \<Rightarrow> string \<Rightarrow> store \<Rightarrow> error option \<times> store" where
  "subscription_updated sub currentMonth s =
     (case getUserByEmail (customer sub) s of
        None \<Rightarrow> (None, s)
      | Some user \<Rightarrow>
          (case items_price_ids sub of
             [] \<Rightarrow> (Some undefined_price, s)
           | priceId # rest \<Rightarrow>
               (case getPlanByPriceId priceId of
                  None \<Rightarrow> (None, s)
                | Some p \<Rightarrow>
                    (case updateSubscription (users_id user)
                            (\<lambda>r. r\<lparr>row_plan := plan_id p, row_status := object_status sub,
                                   stripe_subscription_id := Some (object_id sub),
                                   current_period_start := Some (object_period_start sub * 1000),
                                   current_period_end := Some (object_period_end sub * 1000)\<rparr>) s of
                       Inl err \<Rightarrow> (Some err, s)
                     | Inr (row, s1) \<Rightarrow>
                         (case getOrCreateUsageTracking (users_id user) currentMonth s1 of
                            Inl err \<Rightarrow> (Some err, s1)
                          | Inr (usage, s2) \<Rightarrow>
                              (if Num (request_limit usage) \<noteq> getRequestLimitForPlan (plan_id p)
                               then (Some updateUsageTracking_missing, s2)
                               else (None, s2)))))))"

definition subscription_deleted :: "stripe_object \<Rightarrow> string \<Rightarrow> store \<Rightarrow> error option \<times> store" where
  "subscription_deleted deletedSubscription currentMonth s =
     (case getSubscriptionByStripeId (object_id deletedSubscription) s of
        Inl err \<Rightarrow> (Some err, s)
      | Inr cancelledSub \<Rightarrow>
          (case updateSubscription (user_id cancelledSub)
                  (\<lambda>r. r\<lparr>row_plan := ''free'', row_status := ''cancelled'',
                         stripe_subscription_id := None,
                         current_period_start := None, current_period_end := None\<rparr>) s of
             Inl err \<Rightarrow> (Some err, s)
           | Inr (row, s1) \<Rightarrow>
               (case getOrCreateUsageTracking (user_id cancelledSub) currentMonth s1 of
                  Inl err \<Rightarrow> (Some err, s1)
                | Inr (usage, s2) \<Rightarrow> (None, s2))))"

definition payment_succeeded :: "stripe_object \<Rightarrow> string \<Rightarrow> store \<Rightarrow> error option \<times> store" where
  "payment_succeeded invoice currentMonth s =
     (case invoice_subscription invoice of
        None \<Rightarrow> (None, s)
      | Some ref \<Rightarrow>
          (if ref = [] then (None, s)
           else (case getSubscriptionByStripeId ref s of
                   Inl err \<Rightarrow> (Some err, s)
                 | Inr sub \<Rightarrow>
                     (case resetMonthlyUsage (user_id sub) currentMonth s of
                        Inl err \<Rightarrow> (Some err, s)
                      | Inr (row, s1) \<Rightarrow> (None, s1)))))"

definition payment_failed :: "stripe_object \<Rightarrow> store \<Rightarrow> error option \<times> store" where
  "payment_failed failedInvoice s =
     (case invoice_subscription failedInvoice of
        None \<Rightarrow> (None, s)
      | Some ref \<Rightarrow>
          (if ref = [] then (None, s)
           else (case getSubscriptionByStripeId ref s of
                   Inl err \<Rightarrow> (Some err, s)
                 | Inr sub \<Rightarrow>
                     (case updateSubscription (user_id sub) (\<lambda>r. r\<lparr>row_status := ''past_due''\<rparr>) s of
                        Inl err \<Rightarrow> (Some err, s)
                      | Inr (row, s1) \<Rightarrow> (None, s1)))))"

definition process_event :: "stripe_event \<Rightarrow> string \<Rightarrow> store \<Rightarrow> error option \<times> store" where
  "process_event ev currentMonth s =
     (if event_type ev = ''customer.subscription.created''
         \<or> event_type ev = ''customer.subscription.updated''
        then subscription_updated (event_object ev) currentMonth s
      else if event_type ev = ''customer.subscription.deleted''
        then subscription_deleted (event_object ev) currentMonth s
      else if event_type ev = ''invoice.payment_succeeded''
        then payment_succeeded (event_object ev) currentMonth s
      else if event_type ev = ''invoice.payment_failed''
        then payment_failed (event_object ev) s
      else (None, s))"

definition received :: response where
  "received = \<lparr>http_status = 200, json_body = JObj [(''received'', JBool True)]\<rparr>"

definition webhook_error :: "error \<Rightarrow> response" where
  "webhook_error err =
     \<lparr>http_status = 400,
      json_body = JObj [(''success'', JBool False), (''message'', JStr ''Webhook error''),
                        (''error'', JStr (error_message err))]\<rparr>"

text \<open>The route: one \<open>try\<close> around verification and the \<open>switch\<close>, one \<open>catch\<close>.\<close>

definition webhook ::
  "(string \<Rightarrow> string option \<Rightarrow> error + stripe_event) \<Rightarrow> string \<Rightarrow> string \<Rightarrow> string option \<Rightarrow> store
     \<Rightarrow> response \<times> store" where
  "webhook constructEvent currentMonth raw signature s =
     (case handleWebhook constructEvent raw signature of
        Inl err \<Rightarrow> (webhook_error err, s)
      | Inr ev \<Rightarrow>
          (case process_event ev currentMonth s of
             (Some err, s') \<Rightarrow> (webhook_error err, s')
           | (None, s') \<Rightarrow> (received, s')))"

section \<open>Store states and the usage invariant\<close>

text \<open>
  The invariant of a usage row, as the data model states it: \<open>requests_used\<close> is at most
  \<open>request_limit\<close> unless the limit is \<open>-1\<close>.
\<close>

definition within_limit :: "usage_row \<Rightarrow> bool" where
  "within_limit r = (request_limit r = - 1 \<or> requests_used r \<le> request_limit r)"

text \<open>
  What the program's writes keep of every usage row: the used count is 0, as the insert
  and the reset write it, and a limit other than \<open>-1\<close> is not negative.
\<close>

definition usage_ok :: "usage_row \<Rightarrow> bool" where
  "usage_ok r = (requests_used r = 0 \<and> (request_limit r = - 1 \<or> 0 \<le> request_limit r))"

text \<open>
  The operations that write to the store, each run as a whole: a registration, a request
  that only authenticates (the routes guarded by \<open>authenticateToken\<close> alone, such as
  \<open>GET /subscriptions/status\<close>), a request to one of the routes that record usage, run
  from its first middleware to its handler, and a billing notification. \<open>perform_all\<close>
  runs a list of them one after the other.
\<close>

datatype operation =
    Register "json \<Rightarrow> string" string string string string string
  | Authenticate "string \<Rightarrow> error + req_user" string "json request"
  | RecipesGenerate "string \<Rightarrow> error + req_user" string "json \<Rightarrow> (string \<times> string) list option"
      "json request \<Rightarrow> ctx \<Rightarrow> response" "json request"
  | RecipesSubstitutions "string \<Rightarrow> error + req_user" string "json \<Rightarrow> (string \<times> string) list option"
      "json request \<Rightarrow> ctx \<Rightarrow> response" "json request"
  | MealPlansGenerate "string \<Rightarrow> error + req_user" string "json \<Rightarrow> (string \<times> string) list option"
      "json request \<Rightarrow> ctx \<Rightarrow> response" "json request"
  | Webhook "string \<Rightarrow> string option \<Rightarrow> error + stripe_event" string string "string option"

fun perform :: "operation \<Rightarrow> store \<Rightarrow> store" where
  "perform (Register sign newId e n hashedPassword currentMonth) s =
     snd (register sign newId e n hashedPassword currentMonth s)"
| "perform (Authenticate verify currentMonth req) s =
     ctx_store (snd (authenticateToken verify currentMonth req (fresh s)))"
| "perform (RecipesGenerate verify currentMonth schema act req) s =
     ctx_store (snd (run_chain (recipes_generate verify currentMonth schema act) req (fresh s)))"
| "perform (RecipesSubstitutions verify currentMonth schema act req) s =
     ctx_store (snd (run_chain (recipes_substitutions verify currentMonth schema act) req (fresh s)))"
| "perform (MealPlansGenerate verify currentMonth schema act req) s =
     ctx_store (snd (run_chain (meal_plans_generate verify currentMonth schema act) req (fresh s)))"
| "perform (Webhook constructEvent currentMonth raw signature) s =
     snd (webhook constructEvent currentMonth raw signature s)"

fun perform_all :: "operation list \<Rightarrow> store \<Rightarrow> store" where
  "perform_all [] s = s"
| "perform_all (x # xs) s = perform_all xs (perform x s)"

text \<open>
  Requests and notifications in flight at once interleave between their database calls.
  Whatever the interleaving, the three tables change only through the \<open>Database\<close> helpers
  that write: \<open>db_write\<close> is the store after one such call (unchanged when the call
  raises), \<open>db_writes\<close> the store after a list of them.
\<close>

datatype db_call =
    CreateUser string string string string
  | CreateSubscription string string string
  | UpdateSubscription string "subscription_row \<Rightarrow> subscription_row"
  | GetOrCreateUsageTracking string string
  | IncrementUsage string string
  | ResetMonthlyUsage string string

fun db_write :: "db_call \<Rightarrow> store \<Rightarrow> store" where
  "db_write (CreateUser newId e n hashedPassword) s =
     (case createUser newId e n hashedPassword s of Inl err \<Rightarrow> s | Inr (row, s') \<Rightarrow> s')"
| "db_write (CreateSubscription userId p st) s =
     (case createSubscription userId p st s of Inl err \<Rightarrow> s | Inr (row, s') \<Rightarrow> s')"
| "db_write (UpdateSubscription userId updates) s =
     (case updateSubscription userId updates s of Inl err \<Rightarrow> s | Inr (row, s') \<Rightarrow> s')"
| "db_write (GetOrCreateUsageTracking userId m) s =
     (case getOrCreateUsageTracking userId m s of Inl err \<Rightarrow> s | Inr (row, s') \<Rightarrow> s')"
| "db_write (IncrementUsage userId m) s =
     (case Database_incrementUsage userId m s of Inl err \<Rightarrow> s | Inr (row, s') \<Rightarrow> s')"
| "db_write (ResetMonthlyUsage userId m) s =
     (case resetMonthlyUsage userId m s of Inl err \<Rightarrow> s | Inr (row, s') \<Rightarrow> s')"

fun db_writes :: "db_call list \<Rightarrow> store \<Rightarrow> store" where
  "db_writes [] s = s"
| "db_writes (x # xs) s = db_writes xs (db_write x s)"

text \<open>
  The events of one request to a route that records usage: none, or the record-usage
  step followed by the handler \<open>name\<close>.
\<close>

fun recorded_before_handler :: "string \<Rightarrow> event list \<Rightarrow> bool" where
  "recorded_before_handler name [] = True"
| "recorded_before_handler name [RecordUsageInvoked, HandlerInvoked n] = (n = name)"
| "recorded_before_handler name t = False"

section \<open>Example data\<close>

text \<open>
  Alice has registered and nothing else: plan free, status active, no billing references.
  \<open>alice_store used\<close> is the store with her user row, her subscription row and her usage
  row for July 2025 holding \<open>used\<close> of 5.
\<close>

definition alice :: user_row where
  "alice = \<lparr>users_id = ''u1'', users_email = ''alice@example.com'', users_name = ''Alice'',
            password_hash = ''$2a$10$hash'', stripe_customer_id = None\<rparr>"

definition alice_subscription :: subscription_row where
  "alice_subscription =
     \<lparr>user_id = ''u1'', row_plan = ''free'', row_status = ''active'', stripe_subscription_id = None,
      current_period_start = None, current_period_end = None\<rparr>"

definition alice_usage :: "int \<Rightarrow> usage_row" where
  "alice_usage used =
     \<lparr>usage_user_id = ''u1'', month = ''2025-07'', requests_used = used, request_limit = 5\<rparr>"

definition alice_store :: "int \<Rightarrow> store" where
  "alice_store used =
     \<lparr>users = [alice], subscriptions = [alice_subscription], usage_tracking = [alice_usage used]\<rparr>"

text \<open>An identity \<open>req.user\<close> of Alice with a given subscription.\<close>

definition alice_user :: "string \<Rightarrow> string \<Rightarrow> int \<Rightarrow> int \<Rightarrow> req_user" where
  "alice_user p st used lim =
     \<lparr>id = ''u1'', email = ''alice@example.com'', stripeCustomerId = None,
      subscription = \<lparr>plan = p, status = st, requestsUsed = used, requestLimit = lim\<rparr>\<rparr>"

definition with_user :: "req_user \<Rightarrow> ctx" where
  "with_user u = \<lparr>ctx_store = empty_store, ctx_user = Some u, ctx_trace = []\<rparr>"

text \<open>
  A verifier that accepts the one token \<open>good\<close>, whose payload is the identity that
  registration signed for Alice (plan free, 0 of 5 used), and rejects every other token.
\<close>

definition verify_alice :: "string \<Rightarrow> error + req_user" where
  "verify_alice t =
     (if t = ''good'' then Inr (alice_user ''free'' ''active'' 0 5)
      else Inl (Error ''invalid signature''))"

text \<open>Requests with an empty JSON object as body, with and without a header.\<close>

definition bearer :: "string \<Rightarrow> json request" where
  "bearer h = \<lparr>authorization = Some h, body = JObj []\<rparr>"

definition anonymous :: "json request" where
  "anonymous = \<lparr>authorization = None, body = JObj []\<rparr>"

definition any_body :: "'b \<Rightarrow> (string \<times> string) list option" where
  "any_body b = None"

text \<open>A handler that answers with the used count it finds in the store when it runs.\<close>

definition report_used :: "'b request \<Rightarrow> ctx \<Rightarrow> response" where
  "report_used req c =
     \<lparr>http_status = 200, json_body = JList (map (\<lambda>r. JNum (requests_used r)) (usage_tracking (ctx_store c)))\<rparr>"

text \<open>
  Alice's history: her registration in July 2025 and four requests to
  \<open>POST /recipes/generate\<close>, one after the other, each admitted.
\<close>

definition alice_request :: operation where
  "alice_request = RecipesGenerate verify_alice ''2025-07'' any_body report_used (bearer ''Bearer good'')"

definition alice_history :: "operation list" where
  "alice_history =
     [Register (\<lambda>payload. ''good'') ''u1'' ''alice@example.com'' ''Alice'' ''$2a$10$hash'' ''2025-07'',
      alice_request, alice_request, alice_request, alice_request]"

text \<open>
  Bob pays for the basic plan: his user row carries the billing customer \<open>cus_1\<close> and his
  subscription the reference \<open>sub_1\<close>.
\<close>

definition bob :: user_row where
  "bob = \<lparr>users_id = ''u2'', users_email = ''bob@example.com'', users_name = ''Bob'',
          password_hash = ''$2a$10$hash'', stripe_customer_id = Some ''cus_1''\<rparr>"

definition bob_subscription :: "string \<Rightarrow> string \<Rightarrow> subscription_row" where
  "bob_subscription p st =
     \<lparr>user_id = ''u2'', row_plan = p, row_status = st, stripe_subscription_id = Some ''sub_1'',
      current_period_start = Some 1751328000000, current_period_end = Some 1754006400000\<rparr>"

definition bob_store :: "string \<Rightarrow> string \<Rightarrow> int \<Rightarrow> int \<Rightarrow> store" where
  "bob_store p st used lim =
     \<lparr>users = [bob], subscriptions = [bob_subscription p st],
      usage_tracking = [\<lparr>usage_user_id = ''u2'', month = ''2025-07'', requests_used = used,
                         request_limit = lim\<rparr>]\<rparr>"

definition bob_user :: "string \<Rightarrow> string \<Rightarrow> int \<Rightarrow> int \<Rightarrow> req_user" where
  "bob_user p st used lim =
     \<lparr>id = ''u2'', email = ''bob@example.com'', stripeCustomerId = Some ''cus_1'',
      subscription = \<lparr>plan = p, status = st, requestsUsed = used, requestLimit = lim\<rparr>\<rparr>"

text \<open>A verifier that accepts the one token \<open>bob\<close>, issued to Bob while he was on the free plan.\<close>

definition verify_bob :: "string \<Rightarrow> error + req_user" where
  "verify_bob t =
     (if t = ''bob'' then Inr (bob_user ''free'' ''active'' 0 5)
      else Inl (Error ''invalid signature''))"

definition stripe_sub :: "string \<Rightarrow> string \<Rightarrow> string \<Rightarrow> string \<Rightarrow> stripe_object" where
  "stripe_sub sid cust st price =
     \<lparr>object_id = sid, customer = cust, object_status = st, items_price_ids = [price],
      object_period_start = 1754006400, object_period_end = 1756684800,
      invoice_subscription = None\<rparr>"

text \<open>A signature check that accepts the signature \<open>valid\<close> and yields the given event.\<close>

definition signed_event :: "stripe_event \<Rightarrow> string \<Rightarrow> string option \<Rightarrow> error + stripe_event" where
  "signed_event ev raw signature =
     (if signature = Some ''valid'' then Inr ev else Inl (Error ''No signatures found''))"

section \<open>Unfolding the model\<close>

lemmas database_defs =
  single_def getUserByEmail_def getUserById_def getSubscriptionByUserId_def updateSubscription_def
  getSubscriptionByStripeId_def insert_usage_def getOrCreateUsageTracking_def
  Database_incrementUsage_def resetMonthlyUsage_def createUser_def createSubscription_def
  getRequestLimitForPlan_def limits_def object_prototype_keys_def plan_or_free_def
  status_or_active_def Let_def

lemmas middleware_defs =
  token_of_def authenticateToken_def authenticateToken_ts_def checkSubscriptionLimits_def
  requirePlan_def incrementUsage_def validateRequest_def handler_def fresh_def

lemmas route_defs =
  recipes_generate_def recipes_substitutions_def meal_plans_generate_def chat_message_def
  nutrition_analyze_def images_analyze_def

lemmas response_defs =
  authentication_required_def subscription_required_def limit_exceeded_def
  plan_upgrade_required_def access_token_required_def user_not_found_def
  invalid_or_expired_token_def validation_error_def received_def webhook_error_def

lemmas webhook_defs =
  webhook_def handleWebhook_def process_event_def subscription_updated_def
  subscription_deleted_def payment_succeeded_def payment_failed_def getPlanByPriceId_def
  SUBSCRIPTION_PLANS_def undefined_price_def updateUsageTracking_missing_def

lemmas example_defs =
  alice_def alice_subscription_def alice_usage_def alice_store_def alice_user_def with_user_def
  verify_alice_def bearer_def anonymous_def any_body_def report_used_def bob_def
  bob_subscription_def bob_store_def bob_user_def verify_bob_def stripe_sub_def signed_event_def
  empty_store_def

section \<open>Properties of the enforce step\<close>

text \<open>
  C2. For an authenticated user whose entitlement passed the status check (status active,
  or plan free), \<open>checkSubscriptionLimits\<close> answers 429 with code \<open>LIMIT_EXCEEDED\<close> and the
  numeric \<open>requestsUsed\<close> and \<open>requestLimit\<close> in the body if and only if the limit is not
  \<open>-1\<close> and the used count has reached it; otherwise it calls \<open>next()\<close> and leaves the
  context as it was.
\<close>

theorem quota_check_iff:
  assumes "ctx_user c = Some u"
    and "status (subscription u) = ''active'' \<or> plan (subscription u) = ''free''"
  shows "((fst (checkSubscriptionLimits req c) =
             Some \<lparr>http_status = 429,
                   json_body = JObj [(''success'', JBool False),
                     (''message'', JStr ''Monthly request limit exceeded. Please upgrade your plan.''),
                     (''code'', JStr ''LIMIT_EXCEEDED''),
                     (''requestsUsed'', JNum (requestsUsed (subscription u))),
                     (''requestLimit'', JNum (requestLimit (subscription u)))]\<rparr>)
          = (requestLimit (subscription u) \<noteq> - 1
             \<and> requestsUsed (subscription u) \<ge> requestLimit (subscription u)))
       \<and> checkSubscriptionLimits req c =
           (if requestLimit (subscription u) \<noteq> - 1
               \<and> requestsUsed (subscription u) \<ge> requestLimit (subscription u)
            then (Some (limit_exceeded (requestsUsed (subscription u)) (requestLimit (subscription u))), c)
            else (None, c))"
  using assms by (auto simp: checkSubscriptionLimits_def Let_def limit_exceeded_def)

text \<open>
  The sixth request of a free user (5 of 5 used, here with a status that is not active) is
  answered 429; the fifth (4 of 5 used) is admitted.
\<close>

theorem quota_check_iff_witness:
  "ctx_user (with_user (alice_user ''free'' ''past_due'' 5 5)) = Some (alice_user ''free'' ''past_due'' 5 5)
   \<and> plan (subscription (alice_user ''free'' ''past_due'' 5 5)) = ''free''
   \<and> checkSubscriptionLimits anonymous (with_user (alice_user ''free'' ''past_due'' 5 5))
       = (Some (limit_exceeded 5 5), with_user (alice_user ''free'' ''past_due'' 5 5))
   \<and> status (subscription (alice_user ''free'' ''active'' 4 5)) = ''active''
   \<and> checkSubscriptionLimits anonymous (with_user (alice_user ''free'' ''active'' 4 5))
       = (None, with_user (alice_user ''free'' ''active'' 4 5))"
  using quota_check_iff [of "with_user (alice_user ''free'' ''past_due'' 5 5)"
                            "alice_user ''free'' ''past_due'' 5 5" anonymous]
        quota_check_iff [of "with_user (alice_user ''free'' ''active'' 4 5)"
                            "alice_user ''free'' ''active'' 4 5" anonymous]
  by (simp add: with_user_def alice_user_def)

text \<open>
  C3. \<open>checkSubscriptionLimits\<close> answers 403 with code \<open>SUBSCRIPTION_REQUIRED\<close> exactly
  when the plan is not free and the status is not active. So a user on plan free is never
  rejected by the status check, whatever the status; a user on another plan is rejected
  exactly when the status is not active; and since the condition does not mention the
  used count or the limit, this answer is given also to a user at or over quota.
\<close>

theorem status_check_iff:
  assumes "ctx_user c = Some u"
  shows "(fst (checkSubscriptionLimits req c) =
            Some \<lparr>http_status = 403,
                  json_body = JObj [(''success'', JBool False),
                    (''message'', JStr ''Active subscription required''),
                    (''code'', JStr ''SUBSCRIPTION_REQUIRED'')]\<rparr>)
         = (plan (subscription u) \<noteq> ''free'' \<and> status (subscription u) \<noteq> ''active'')
       \<and> snd (checkSubscriptionLimits req c) = c"
  using assms
  by (auto simp: checkSubscriptionLimits_def Let_def subscription_required_def limit_exceeded_def)

text \<open>
  Alice on plan free with status \<open>past_due\<close> is admitted; on plan basic with status
  \<open>past_due\<close> and 50 of 50 used she is answered 403, not 429.
\<close>

theorem status_check_iff_witness:
  "ctx_user (with_user (alice_user ''free'' ''past_due'' 0 5)) = Some (alice_user ''free'' ''past_due'' 0 5)
   \<and> fst (checkSubscriptionLimits anonymous (with_user (alice_user ''free'' ''past_due'' 0 5)))
       \<noteq> Some subscription_required
   \<and> ctx_user (with_user (alice_user ''basic'' ''past_due'' 50 50)) = Some (alice_user ''basic'' ''past_due'' 50 50)
   \<and> fst (checkSubscriptionLimits anonymous (with_user (alice_user ''basic'' ''past_due'' 50 50)))
       = Some subscription_required"
  using status_check_iff [of "with_user (alice_user ''free'' ''past_due'' 0 5)"
                             "alice_user ''free'' ''past_due'' 0 5" anonymous]
        status_check_iff [of "with_user (alice_user ''basic'' ''past_due'' 50 50)"
                             "alice_user ''basic'' ''past_due'' 50 50" anonymous]
  by (simp add: with_user_def alice_user_def subscription_required_def)

section \<open>The plan limit table\<close>

lemma getRequestLimitForPlan_known:
  "getRequestLimitForPlan ''free'' = Num 5"
  "getRequestLimitForPlan ''basic'' = Num 50"
  "getRequestLimitForPlan ''pro'' = Num (- 1)"
  "getRequestLimitForPlan ''pro_yearly'' = Num (- 1)"
  by (simp_all add: getRequestLimitForPlan_def limits_def)

lemma getRequestLimitForPlan_unknown:
  assumes "p \<notin> {''free'', ''basic'', ''pro'', ''pro_yearly''}"
    and "p \<notin> set object_prototype_keys"
  shows "getRequestLimitForPlan p = Num 5"
  using assms by (simp add: getRequestLimitForPlan_def limits_def)

lemma getRequestLimitForPlan_Num:
  "getRequestLimitForPlan p = Num n \<Longrightarrow> n = 5 \<or> n = 50 \<or> n = - 1"
  by (auto simp: getRequestLimitForPlan_def limits_def split: if_splits)

text \<open>
  C10. The claim is that every plan identifier outside free, basic, pro and pro_yearly
  gets the limit 5. The identifier \<open>constructor\<close> is outside that set, and the lookup
  \<open>limits[plan] || 5\<close> gives the inherited member of \<open>Object.prototype\<close> for it, not 5;
  creating the month's usage record for a user whose stored plan is \<open>constructor\<close> then
  fails, so no record capped at 5 exists. For an identifier that names no member of
  \<open>Object.prototype\<close> the limit is 5 (\<open>getRequestLimitForPlan_unknown\<close>).
\<close>

theorem limit_of_constructor_plan:
  "getRequestLimitForPlan ''constructor'' = PrototypeMember ''constructor''
   \<and> getRequestLimitForPlan ''constructor'' \<noteq> Num 5
   \<and> isl (getOrCreateUsageTracking ''u1'' ''2025-07''
        \<lparr>users = [alice], subscriptions = [alice_subscription\<lparr>row_plan := ''constructor''\<rparr>],
         usage_tracking = []\<rparr>)
   \<and> getOrCreateUsageTracking ''u1'' ''2025-07''
        \<lparr>users = [alice], subscriptions = [alice_subscription\<lparr>row_plan := ''enterprise''\<rparr>],
         usage_tracking = []\<rparr>
      = Inr (alice_usage 0, \<lparr>users = [alice], subscriptions = [alice_subscription\<lparr>row_plan := ''enterprise''\<rparr>],
         usage_tracking = [alice_usage 0]\<rparr>)"
  by (simp add: getRequestLimitForPlan_def limits_def object_prototype_keys_def
      getOrCreateUsageTracking_def getSubscriptionByUserId_def single_def plan_or_free_def
      insert_usage_def alice_def alice_subscription_def alice_usage_def Let_def)

section \<open>Which routes pass through the gate\<close>

text \<open>
  C1. The claim is that a request to \<open>POST /chat/message\<close> or \<open>POST /nutrition/analyze\<close>
  without a valid bearer credential is rejected as unauthenticated and never reaches the
  handler. Both routes register only \<open>validateRequest\<close> before the handler: a request
  with no \<open>Authorization\<close> header and a valid body reaches the handler and is answered by
  it.
\<close>

theorem chat_and_nutrition_reach_handler_without_credential:
  "run_chain (chat_message any_body report_used) anonymous (fresh (alice_store 5))
     = (Some \<lparr>http_status = 200, json_body = JList [JNum 5]\<rparr>,
        \<lparr>ctx_store = alice_store 5, ctx_user = None,
         ctx_trace = [HandlerInvoked ''POST /chat/message'']\<rparr>)
   \<and> run_chain (nutrition_analyze any_body report_used) anonymous (fresh (alice_store 5))
     = (Some \<lparr>http_status = 200, json_body = JList [JNum 5]\<rparr>,
        \<lparr>ctx_store = alice_store 5, ctx_user = None,
         ctx_trace = [HandlerInvoked ''POST /nutrition/analyze'']\<rparr>)"
  by (simp add: route_defs middleware_defs example_defs)

text \<open>In general: whatever the \<open>Authorization\<close> header, a valid body reaches the handler.\<close>

lemma ungated_routes_ignore_credentials:
  assumes "schema (body req) = None"
  shows "run_chain (chat_message schema act) req c
           = (Some (act req c), c\<lparr>ctx_trace := ctx_trace c @ [HandlerInvoked ''POST /chat/message'']\<rparr>)"
    and "run_chain (nutrition_analyze schema act) req c
           = (Some (act req c), c\<lparr>ctx_trace := ctx_trace c @ [HandlerInvoked ''POST /nutrition/analyze'']\<rparr>)"
  using assms by (simp_all add: chat_message_def nutrition_analyze_def validateRequest_def handler_def)

text \<open>
  The routes that do start with \<open>authenticateToken\<close> end a request without a usable
  token before anything else runs.
\<close>

lemma gated_routes_reject_missing_token:
  assumes "token_of (authorization req) = None \<or> token_of (authorization req) = Some []"
  shows "run_chain (recipes_generate verify m schema act) req (fresh s) = (Some access_token_required, fresh s)"
    and "run_chain (recipes_substitutions verify m schema act) req (fresh s) = (Some access_token_required, fresh s)"
    and "run_chain (meal_plans_generate verify m schema act) req (fresh s) = (Some access_token_required, fresh s)"
    and "run_chain (images_analyze verify act) req (fresh s) = (Some access_token_required, fresh s)"
  using assms by (auto simp: route_defs authenticateToken_def authenticateToken_ts_def)

section \<open>The authenticate step\<close>

text \<open>
  C7, as the code has it. A request whose \<open>Authorization\<close> header is missing, or has no
  second piece after a space, is answered 401 (\<open>Access token required\<close>). A request that
  presents a token which \<open>jwt.verify\<close> rejects (malformed, wrong signature, expired) is
  answered 403 (\<open>Invalid or expired token\<close>), by both versions of \<open>authenticateToken\<close>.
\<close>

theorem credential_failure_status:
  "(token_of (authorization req) = None \<or> token_of (authorization req) = Some []
      \<longrightarrow> authenticateToken verify m req c = (Some access_token_required, c)
        \<and> authenticateToken_ts verify req c = (Some access_token_required, c))
   \<and> (token_of (authorization req) = Some t \<and> t \<noteq> [] \<and> verify t = Inl err
      \<longrightarrow> authenticateToken verify m req c = (Some invalid_or_expired_token, c)
        \<and> authenticateToken_ts verify req c = (Some invalid_or_expired_token, c))
   \<and> token_of None = None
   \<and> http_status access_token_required = 401
   \<and> http_status invalid_or_expired_token = 403"
  by (auto simp: authenticateToken_def authenticateToken_ts_def token_of_def
      access_token_required_def invalid_or_expired_token_def)

theorem credential_failure_status_witness:
  "token_of (authorization anonymous) = None
   \<and> authenticateToken verify_alice ''2025-07'' anonymous (fresh (alice_store 0))
       = (Some access_token_required, fresh (alice_store 0))
   \<and> token_of (authorization (bearer ''Bearer'')) = None
   \<and> authenticateToken verify_alice ''2025-07'' (bearer ''Bearer'') (fresh (alice_store 0))
       = (Some access_token_required, fresh (alice_store 0))
   \<and> token_of (authorization (bearer ''Bearer expired'')) = Some ''expired''
   \<and> verify_alice ''expired'' = Inl (Error ''invalid signature'')
   \<and> authenticateToken verify_alice ''2025-07'' (bearer ''Bearer expired'') (fresh (alice_store 0))
       = (Some invalid_or_expired_token, fresh (alice_store 0))"
proof -
  have a: "token_of (authorization anonymous) = None"
    by (simp add: token_of_def anonymous_def)
  have b: "token_of (authorization (bearer ''Bearer'')) = None"
    by (simp add: token_of_def bearer_def)
  have c: "token_of (authorization (bearer ''Bearer expired'')) = Some ''expired''"
    by (simp add: token_of_def bearer_def)
  have d: "verify_alice ''expired'' = Inl (Error ''invalid signature'')"
    by (simp add: verify_alice_def)
  show ?thesis
    using a b c d
      credential_failure_status [of anonymous verify_alice "''2025-07''" "fresh (alice_store 0)"]
      credential_failure_status [of "bearer ''Bearer''" verify_alice "''2025-07''" "fresh (alice_store 0)"]
      credential_failure_status [of "bearer ''Bearer expired''" verify_alice "''2025-07''"
                                    "fresh (alice_store 0)" "''expired''" "Error ''invalid signature''"]
    by simp
qed

text \<open>
  C7 as stated fails: a token with an invalid signature is answered 403, not 401.
\<close>

theorem invalid_token_is_403_counterexample:
  "fst (authenticateToken verify_alice ''2025-07'' (bearer ''Bearer forged'') (fresh (alice_store 0)))
     = Some \<lparr>http_status = 403,
             json_body = JObj [(''success'', JBool False), (''message'', JStr ''Invalid or expired token'')]\<rparr>"
  by (simp add: middleware_defs example_defs response_defs)


section \<open>When the record-usage step runs\<close>

lemma authenticateToken_trace:
  "authenticateToken verify m req c = (res, c') \<Longrightarrow> ctx_trace c' = ctx_trace c"
  by (auto simp: authenticateToken_def Let_def split: option.splits sum.splits if_splits prod.splits)

lemma checkSubscriptionLimits_ctx:
  "checkSubscriptionLimits req c = (res, c') \<Longrightarrow> c' = c"
  by (auto simp: checkSubscriptionLimits_def Let_def split: option.splits if_splits)

lemma requirePlan_ctx:
  "requirePlan plans req c = (res, c') \<Longrightarrow> c' = c"
  by (auto simp: requirePlan_def split: option.splits if_splits)

lemma validateRequest_ctx:
  "validateRequest schema req c = (res, c') \<Longrightarrow> c' = c"
  by (auto simp: validateRequest_def split: option.splits)

text \<open>
  The record-usage step always calls \<open>next()\<close> and leaves the store as it was: the
  database helper it calls raises, and the error is swallowed.
\<close>

lemma incrementUsage_next:
  "incrementUsage m req c = (None, c\<lparr>ctx_trace := ctx_trace c @ [RecordUsageInvoked]\<rparr>)"
  by (simp add: incrementUsage_def Database_incrementUsage_def Let_def split: option.splits)

text \<open>The steps after \<open>authenticateToken\<close>, for a request they admit and for any request.\<close>

lemma admitted_after_authenticate:
  assumes "fst (checkSubscriptionLimits req c) = None" and "schema (body req) = None"
  shows "run_chain [checkSubscriptionLimits, validateRequest schema, incrementUsage m, handler name act] req c
         = (Some (act req (c\<lparr>ctx_trace := ctx_trace c @ [RecordUsageInvoked]\<rparr>)),
            c\<lparr>ctx_trace := ctx_trace c @ [RecordUsageInvoked, HandlerInvoked name]\<rparr>)"
proof -
  from assms(1) have "checkSubscriptionLimits req c = (None, c)"
    using checkSubscriptionLimits_ctx [of req c] by (cases "checkSubscriptionLimits req c") auto
  with assms(2) show ?thesis
    by (simp add: validateRequest_def incrementUsage_next handler_def)
qed

lemma rejected_after_authenticate:
  assumes "fst (checkSubscriptionLimits req c) \<noteq> None \<or> schema (body req) \<noteq> None"
  shows "snd (run_chain [checkSubscriptionLimits, validateRequest schema, incrementUsage m,
                          handler name act] req c) = c"
proof (cases "checkSubscriptionLimits req c")
  case (Pair r1 c1)
  then have c1: "c1 = c" by (rule checkSubscriptionLimits_ctx)
  show ?thesis
  proof (cases r1)
    case (Some r)
    with Pair c1 show ?thesis by simp
  next
    case None
    with Pair assms obtain details where "schema (body req) = Some details" by auto
    with Pair c1 None show ?thesis by (simp add: validateRequest_def)
  qed
qed

lemma gate_then_record:
  assumes "ctx_trace c = []"
  shows "recorded_before_handler name (ctx_trace (snd (run_chain
           [checkSubscriptionLimits, validateRequest schema, incrementUsage m, handler name act] req c)))"
proof (cases "fst (checkSubscriptionLimits req c) = None \<and> schema (body req) = None")
  case True
  then have e: "run_chain [checkSubscriptionLimits, validateRequest schema, incrementUsage m,
                            handler name act] req c
                = (Some (act req (c\<lparr>ctx_trace := ctx_trace c @ [RecordUsageInvoked]\<rparr>)),
                   c\<lparr>ctx_trace := ctx_trace c @ [RecordUsageInvoked, HandlerInvoked name]\<rparr>)"
    by (intro admitted_after_authenticate) simp_all
  show ?thesis unfolding e using assms by simp
next
  case False
  then have "fst (checkSubscriptionLimits req c) \<noteq> None \<or> schema (body req) \<noteq> None" by simp
  then have e: "snd (run_chain [checkSubscriptionLimits, validateRequest schema, incrementUsage m,
                             handler name act] req c) = c"
    by (rule rejected_after_authenticate)
  show ?thesis unfolding e using assms by simp
qed

lemma after_authenticate_store:
  "ctx_store (snd (run_chain [checkSubscriptionLimits, validateRequest schema, incrementUsage m,
                               handler name act] req c)) = ctx_store c"
proof (cases "fst (checkSubscriptionLimits req c) = None \<and> schema (body req) = None")
  case True
  then have e: "run_chain [checkSubscriptionLimits, validateRequest schema, incrementUsage m,
                            handler name act] req c
                = (Some (act req (c\<lparr>ctx_trace := ctx_trace c @ [RecordUsageInvoked]\<rparr>)),
                   c\<lparr>ctx_trace := ctx_trace c @ [RecordUsageInvoked, HandlerInvoked name]\<rparr>)"
    by (intro admitted_after_authenticate) simp_all
  show ?thesis unfolding e by simp
next
  case False
  then have "fst (checkSubscriptionLimits req c) \<noteq> None \<or> schema (body req) \<noteq> None" by simp
  then have e: "snd (run_chain [checkSubscriptionLimits, validateRequest schema, incrementUsage m,
                             handler name act] req c) = c"
    by (rule rejected_after_authenticate)
  show ?thesis unfolding e by simp
qed

lemma record_after_authenticate:
  "recorded_before_handler name (ctx_trace (snd (run_chain
     (authenticateToken verify m # checkSubscriptionLimits # validateRequest schema
        # incrementUsage m # [handler name act]) req (fresh s))))"
proof (cases "authenticateToken verify m req (fresh s)")
  case (Pair r c)
  then have t: "ctx_trace c = []"
    using authenticateToken_trace [of verify m req "fresh s" r c] by (simp add: fresh_def)
  show ?thesis
  proof (cases r)
    case (Some a)
    with Pair t show ?thesis by simp
  next
    case None
    with Pair have e: "\<And>rest. run_chain (authenticateToken verify m # rest) req (fresh s)
                               = run_chain rest req c"
      by simp
    show ?thesis unfolding e using t by (rule gate_then_record)
  qed
qed

lemma record_after_plan_gate:
  "recorded_before_handler name (ctx_trace (snd (run_chain
     (authenticateToken verify m # requirePlan plans # checkSubscriptionLimits
        # validateRequest schema # incrementUsage m # [handler name act]) req (fresh s))))"
proof (cases "authenticateToken verify m req (fresh s)")
  case (Pair r c)
  then have t: "ctx_trace c = []"
    using authenticateToken_trace [of verify m req "fresh s" r c] by (simp add: fresh_def)
  show ?thesis
  proof (cases r)
    case (Some a)
    with Pair t show ?thesis by simp
  next
    case None
    show ?thesis
    proof (cases "requirePlan plans req c")
      case p: (Pair r2 c2)
      then have c2: "c2 = c" by (rule requirePlan_ctx)
      show ?thesis
      proof (cases r2)
        case (Some a)
        with Pair None p c2 t show ?thesis by simp
      next
        case n2: None
        with Pair None p c2
        have e: "\<And>rest. run_chain (authenticateToken verify m # requirePlan plans # rest) req (fresh s)
                         = run_chain rest req c"
          by simp
        show ?thesis unfolding e using t by (rule gate_then_record)
      qed
    qed
  qed
qed

lemma admitted_request:
  assumes auth: "authenticateToken verify m req (fresh s) = (None, c)"
    and check: "fst (checkSubscriptionLimits req c) = None"
    and valid: "schema (body req) = None"
  shows "run_chain (authenticateToken verify m # checkSubscriptionLimits # validateRequest schema
                      # incrementUsage m # [handler name act]) req (fresh s)
         = (Some (act req (c\<lparr>ctx_trace := [RecordUsageInvoked]\<rparr>)),
            c\<lparr>ctx_trace := [RecordUsageInvoked, HandlerInvoked name]\<rparr>)"
proof -
  have t: "ctx_trace c = []"
    using authenticateToken_trace [OF auth] by (simp add: fresh_def)
  have e: "run_chain [checkSubscriptionLimits, validateRequest schema, incrementUsage m,
                      handler name act] req c
           = (Some (act req (c\<lparr>ctx_trace := ctx_trace c @ [RecordUsageInvoked]\<rparr>)),
              c\<lparr>ctx_trace := ctx_trace c @ [RecordUsageInvoked, HandlerInvoked name]\<rparr>)"
    using check valid by (rule admitted_after_authenticate)
  have s1: "\<And>rest. run_chain (authenticateToken verify m # rest) req (fresh s) = run_chain rest req c"
    using auth by simp
  show ?thesis unfolding s1 e using t by simp
qed

lemma admitted_request_with_plan:
  assumes auth: "authenticateToken verify m req (fresh s) = (None, c)"
    and gate: "fst (requirePlan plans req c) = None"
    and check: "fst (checkSubscriptionLimits req c) = None"
    and valid: "schema (body req) = None"
  shows "run_chain (authenticateToken verify m # requirePlan plans # checkSubscriptionLimits
                      # validateRequest schema # incrementUsage m # [handler name act]) req (fresh s)
         = (Some (act req (c\<lparr>ctx_trace := [RecordUsageInvoked]\<rparr>)),
            c\<lparr>ctx_trace := [RecordUsageInvoked, HandlerInvoked name]\<rparr>)"
proof -
  have t: "ctx_trace c = []"
    using authenticateToken_trace [OF auth] by (simp add: fresh_def)
  from gate have g: "requirePlan plans req c = (None, c)"
    using requirePlan_ctx [of plans req c] by (cases "requirePlan plans req c") auto
  have e: "run_chain [checkSubscriptionLimits, validateRequest schema, incrementUsage m,
                      handler name act] req c
           = (Some (act req (c\<lparr>ctx_trace := ctx_trace c @ [RecordUsageInvoked]\<rparr>)),
              c\<lparr>ctx_trace := ctx_trace c @ [RecordUsageInvoked, HandlerInvoked name]\<rparr>)"
    using check valid by (rule admitted_after_authenticate)
  have s1: "\<And>rest. run_chain (authenticateToken verify m # requirePlan plans # rest) req (fresh s)
                   = run_chain rest req c"
    using auth g by simp
  show ?thesis unfolding s1 e using t by simp
qed

text \<open>
  C5, as the code has it. On each route that records usage, \<open>incrementUsage\<close> is the
  middleware just before the handler, so the record-usage step is invoked before the
  handler, never after it: a request either invokes neither, or invokes the step and then
  immediately the handler. A request that authenticate, enforce (on
  \<open>/recipes/substitutions\<close> also the plan gate) and validation admit invokes the step
  first and then, in every case and whatever the outcome of the step, the handler, which
  answers the request.
\<close>

theorem record_usage_runs_before_handler:
  "recorded_before_handler ''POST /recipes/generate''
     (ctx_trace (snd (run_chain (recipes_generate verify m schema act) req (fresh s))))
   \<and> recorded_before_handler ''POST /recipes/substitutions''
     (ctx_trace (snd (run_chain (recipes_substitutions verify m schema act) req (fresh s))))
   \<and> recorded_before_handler ''POST /meal-plans/generate''
     (ctx_trace (snd (run_chain (meal_plans_generate verify m schema act) req (fresh s))))
   \<and> (authenticateToken verify m req (fresh s) = (None, c)
        \<and> fst (checkSubscriptionLimits req c) = None \<and> schema (body req) = None
      \<longrightarrow> run_chain (recipes_generate verify m schema act) req (fresh s)
            = (Some (act req (c\<lparr>ctx_trace := [RecordUsageInvoked]\<rparr>)),
               c\<lparr>ctx_trace := [RecordUsageInvoked, HandlerInvoked ''POST /recipes/generate'']\<rparr>)
        \<and> run_chain (meal_plans_generate verify m schema act) req (fresh s)
            = (Some (act req (c\<lparr>ctx_trace := [RecordUsageInvoked]\<rparr>)),
               c\<lparr>ctx_trace := [RecordUsageInvoked, HandlerInvoked ''POST /meal-plans/generate'']\<rparr>)
        \<and> (fst (requirePlan [''basic'', ''pro'', ''pro_yearly''] req c) = None
           \<longrightarrow> run_chain (recipes_substitutions verify m schema act) req (fresh s)
                 = (Some (act req (c\<lparr>ctx_trace := [RecordUsageInvoked]\<rparr>)),
                    c\<lparr>ctx_trace := [RecordUsageInvoked, HandlerInvoked ''POST /recipes/substitutions'']\<rparr>)))"
proof -
  have shape: "recorded_before_handler ''POST /recipes/generate''
       (ctx_trace (snd (run_chain (recipes_generate verify m schema act) req (fresh s))))"
    "recorded_before_handler ''POST /recipes/substitutions''
       (ctx_trace (snd (run_chain (recipes_substitutions verify m schema act) req (fresh s))))"
    "recorded_before_handler ''POST /meal-plans/generate''
       (ctx_trace (snd (run_chain (meal_plans_generate verify m schema act) req (fresh s))))"
    unfolding recipes_generate_def recipes_substitutions_def meal_plans_generate_def
    by (rule record_after_authenticate record_after_plan_gate)+
  have admitted: "run_chain (recipes_generate verify m schema act) req (fresh s)
            = (Some (act req (c\<lparr>ctx_trace := [RecordUsageInvoked]\<rparr>)),
               c\<lparr>ctx_trace := [RecordUsageInvoked, HandlerInvoked ''POST /recipes/generate'']\<rparr>)"
      "run_chain (meal_plans_generate verify m schema act) req (fresh s)
            = (Some (act req (c\<lparr>ctx_trace := [RecordUsageInvoked]\<rparr>)),
               c\<lparr>ctx_trace := [RecordUsageInvoked, HandlerInvoked ''POST /meal-plans/generate'']\<rparr>)"
    if "authenticateToken verify m req (fresh s) = (None, c)"
      and "fst (checkSubscriptionLimits req c) = None" and "schema (body req) = None"
    unfolding recipes_generate_def meal_plans_generate_def
    using that by (rule admitted_request)+
  have with_plan: "run_chain (recipes_substitutions verify m schema act) req (fresh s)
                 = (Some (act req (c\<lparr>ctx_trace := [RecordUsageInvoked]\<rparr>)),
                    c\<lparr>ctx_trace := [RecordUsageInvoked, HandlerInvoked ''POST /recipes/substitutions'']\<rparr>)"
    if "authenticateToken verify m req (fresh s) = (None, c)"
      and "fst (requirePlan [''basic'', ''pro'', ''pro_yearly''] req c) = None"
      and "fst (checkSubscriptionLimits req c) = None" and "schema (body req) = None"
    unfolding recipes_substitutions_def
    using that by (rule admitted_request_with_plan)
  show ?thesis
    using shape admitted with_plan by blast
qed

text \<open>
  Bob on the basic plan with nothing used: his request is admitted on all three routes,
  the step runs, then the handler. Alice on the free plan is stopped by the plan gate of
  \<open>/recipes/substitutions\<close>, and neither the step nor the handler runs.
\<close>

theorem record_usage_runs_before_handler_witness:
  "authenticateToken verify_bob ''2025-07'' (bearer ''Bearer bob'') (fresh (bob_store ''basic'' ''active'' 0 50))
     = (None, \<lparr>ctx_store = bob_store ''basic'' ''active'' 0 50,
               ctx_user = Some (bob_user ''basic'' ''active'' 0 50), ctx_trace = []\<rparr>)
   \<and> fst (checkSubscriptionLimits (bearer ''Bearer bob'')
            \<lparr>ctx_store = bob_store ''basic'' ''active'' 0 50,
             ctx_user = Some (bob_user ''basic'' ''active'' 0 50), ctx_trace = []\<rparr>) = None
   \<and> fst (requirePlan [''basic'', ''pro'', ''pro_yearly''] (bearer ''Bearer bob'')
            \<lparr>ctx_store = bob_store ''basic'' ''active'' 0 50,
             ctx_user = Some (bob_user ''basic'' ''active'' 0 50), ctx_trace = []\<rparr>) = None
   \<and> any_body (body (bearer ''Bearer bob'')) = None
   \<and> run_chain (recipes_generate verify_bob ''2025-07'' any_body report_used)
        (bearer ''Bearer bob'') (fresh (bob_store ''basic'' ''active'' 0 50))
      = (Some \<lparr>http_status = 200, json_body = JList [JNum 0]\<rparr>,
         \<lparr>ctx_store = bob_store ''basic'' ''active'' 0 50,
          ctx_user = Some (bob_user ''basic'' ''active'' 0 50),
          ctx_trace = [RecordUsageInvoked, HandlerInvoked ''POST /recipes/generate'']\<rparr>)
   \<and> run_chain (recipes_substitutions verify_bob ''2025-07'' any_body report_used)
        (bearer ''Bearer bob'') (fresh (bob_store ''basic'' ''active'' 0 50))
      = (Some \<lparr>http_status = 200, json_body = JList [JNum 0]\<rparr>,
         \<lparr>ctx_store = bob_store ''basic'' ''active'' 0 50,
          ctx_user = Some (bob_user ''basic'' ''active'' 0 50),
          ctx_trace = [RecordUsageInvoked, HandlerInvoked ''POST /recipes/substitutions'']\<rparr>)
   \<and> ctx_trace (snd (run_chain (recipes_substitutions verify_alice ''2025-07'' any_body report_used)
        (bearer ''Bearer good'') (fresh (alice_store 0)))) = []"
proof -
  let ?c = "\<lparr>ctx_store = bob_store ''basic'' ''active'' 0 50,
             ctx_user = Some (bob_user ''basic'' ''active'' 0 50), ctx_trace = []\<rparr>"
  have auth: "authenticateToken verify_bob ''2025-07'' (bearer ''Bearer bob'')
                (fresh (bob_store ''basic'' ''active'' 0 50)) = (None, ?c)"
    by (simp add: middleware_defs example_defs database_defs)
  have check: "fst (checkSubscriptionLimits (bearer ''Bearer bob'') ?c) = None"
    by (simp add: checkSubscriptionLimits_def bob_user_def)
  have gate: "fst (requirePlan [''basic'', ''pro'', ''pro_yearly''] (bearer ''Bearer bob'') ?c) = None"
    by (simp add: requirePlan_def bob_user_def)
  have valid: "any_body (body (bearer ''Bearer bob'')) = None"
    by (simp add: any_body_def)
  have alice: "ctx_trace (snd (run_chain (recipes_substitutions verify_alice ''2025-07'' any_body report_used)
        (bearer ''Bearer good'') (fresh (alice_store 0)))) = []"
    by (simp add: route_defs middleware_defs example_defs database_defs)
  have used: "report_used (bearer ''Bearer bob'') (?c\<lparr>ctx_trace := [RecordUsageInvoked]\<rparr>)
                = \<lparr>http_status = 200, json_body = JList [JNum 0]\<rparr>"
    by (simp add: report_used_def bob_store_def)
  show ?thesis
    using auth check gate valid alice used
      record_usage_runs_before_handler [of verify_bob "''2025-07''" any_body report_used
        "bearer ''Bearer bob''" "bob_store ''basic'' ''active'' 0 50" ?c]
    by simp
qed

text \<open>
  C5 as stated fails: in Alice's first request to \<open>POST /recipes/generate\<close> the
  record-usage step is invoked before the handler, not after the request has been handed
  to it. (The step changes nothing: the handler finds 0 used, and the store is as
  before.)
\<close>

theorem record_usage_precedes_handler_counterexample:
  "run_chain (recipes_generate verify_alice ''2025-07'' any_body report_used)
     (bearer ''Bearer good'') (fresh (alice_store 0))
   = (Some \<lparr>http_status = 200, json_body = JList [JNum 0]\<rparr>,
      \<lparr>ctx_store = alice_store 0, ctx_user = Some (alice_user ''free'' ''active'' 0 5),
       ctx_trace = [RecordUsageInvoked, HandlerInvoked ''POST /recipes/generate'']\<rparr>)"
  by (simp add: route_defs middleware_defs example_defs database_defs)

section \<open>What the authenticate step hands on\<close>

lemma getOrCreateUsageTracking_row:
  assumes "getOrCreateUsageTracking userId m s = Inr (r, s')"
  shows "filter (\<lambda>r. usage_user_id r = userId \<and> month r = m) (usage_tracking s') = [r]
       \<and> users s' = users s \<and> subscriptions s' = subscriptions s"
proof (cases "filter (\<lambda>r. usage_user_id r = userId \<and> month r = m) (usage_tracking s)")
  case Nil
  with assms show ?thesis
    by (auto simp: getOrCreateUsageTracking_def insert_usage_def Let_def
        split: js_value.splits if_splits)
next
  case (Cons a rest)
  show ?thesis
  proof (cases rest)
    case Nil
    with Cons assms show ?thesis by (simp add: getOrCreateUsageTracking_def)
  next
    case (Cons b rest')
    have "a \<in> set (filter (\<lambda>r. usage_user_id r = userId \<and> month r = m) (usage_tracking s))"
      using \<open>filter _ _ = a # rest\<close> by simp
    then have "(userId, m) \<in> set (map (\<lambda>r. (usage_user_id r, month r)) (usage_tracking s))"
      by force
    with Cons \<open>filter _ _ = a # rest\<close> assms show ?thesis
      by (auto simp: getOrCreateUsageTracking_def insert_usage_def Let_def
          split: js_value.splits if_splits)
  qed
qed

text \<open>
  The database version of \<open>authenticateToken\<close> hands on what the store holds once it
  has run: the used count and limit of the month's usage row of the resolved user, and
  the plan and status of the user's subscription row (free and active for a user without
  one). Nothing of the token but the user id enters.
\<close>

lemma authenticateToken_current_state:
  assumes "authenticateToken verify m req c = (None, c')"
  shows "\<exists>u r. ctx_user c' = Some u
          \<and> filter (\<lambda>r. usage_user_id r = id u \<and> month r = m) (usage_tracking (ctx_store c')) = [r]
          \<and> requestsUsed (subscription u) = requests_used r
          \<and> requestLimit (subscription u) = request_limit r
          \<and> plan (subscription u) = plan_or_free (getSubscriptionByUserId (id u) (ctx_store c'))
          \<and> status (subscription u) = status_or_active (getSubscriptionByUserId (id u) (ctx_store c'))"
  using assms
  by (auto simp: authenticateToken_def Let_def getSubscriptionByUserId_def
      dest!: getOrCreateUsageTracking_row
      split: option.splits sum.splits if_splits prod.splits)

text \<open>
  C4. The claim is that after authentication the enforce and plan-gate steps consult the
  stored entitlement and usage, not what the credential carried when it was issued. The
  version of \<open>authenticateToken\<close> in \<open>middleware/auth.ts\<close> sets \<open>req.user = decoded\<close>:
  with the token that registration signed for Alice (0 of 5 used) and a store in which
  she has used 5 of 5, it hands on 0 of 5 and \<open>checkSubscriptionLimits\<close> admits the
  request. The database version hands on 5 of 5 and the request is answered 429.
\<close>

theorem token_subscription_is_stale:
  "authenticateToken_ts verify_alice (bearer ''Bearer good'') (fresh (alice_store 5))
     = (None, \<lparr>ctx_store = alice_store 5, ctx_user = Some (alice_user ''free'' ''active'' 0 5),
               ctx_trace = []\<rparr>)
   \<and> fst (checkSubscriptionLimits (bearer ''Bearer good'')
            \<lparr>ctx_store = alice_store 5, ctx_user = Some (alice_user ''free'' ''active'' 0 5),
             ctx_trace = []\<rparr>) = None
   \<and> map requests_used (usage_tracking (alice_store 5)) = [5]
   \<and> authenticateToken verify_alice ''2025-07'' (bearer ''Bearer good'') (fresh (alice_store 5))
     = (None, \<lparr>ctx_store = alice_store 5, ctx_user = Some (alice_user ''free'' ''active'' 5 5),
               ctx_trace = []\<rparr>)
   \<and> fst (checkSubscriptionLimits (bearer ''Bearer good'')
            \<lparr>ctx_store = alice_store 5, ctx_user = Some (alice_user ''free'' ''active'' 5 5),
             ctx_trace = []\<rparr>) = Some (limit_exceeded 5 5)"
  by (simp add: middleware_defs example_defs database_defs)


section \<open>The billing event adapter\<close>

text \<open>
  C9. The claim is that a verified created/updated notification is applied to the user
  whose stored billing-customer id equals the notification's \<open>customer\<close>. The adapter
  calls \<open>Database.getUserByEmail(subscription.customer)\<close> (under the comment
  \<open>Find user by Stripe customer ID\<close>): it compares \<open>customer\<close> with the email column.
  Bob's billing customer is \<open>cus_1\<close>; a verified notification for customer \<open>cus_1\<close> that
  moves him to the pro plan is acknowledged and changes nothing. The same notification
  with Bob's email in the \<open>customer\<close> field does reach his subscription row.
\<close>

theorem customer_is_matched_against_email:
  "stripe_customer_id bob = Some ''cus_1''
   \<and> webhook (signed_event \<lparr>event_type = ''customer.subscription.updated'',
                 event_object = stripe_sub ''sub_1'' ''cus_1'' ''active'' ''price_pro_monthly''\<rparr>)
        ''2025-07'' ''{}'' (Some ''valid'') (bob_store ''basic'' ''active'' 5 50)
     = (received, bob_store ''basic'' ''active'' 5 50)
   \<and> map row_plan (subscriptions (snd (webhook (signed_event \<lparr>event_type = ''customer.subscription.updated'',
                 event_object = stripe_sub ''sub_1'' ''bob@example.com'' ''active'' ''price_pro_monthly''\<rparr>)
        ''2025-07'' ''{}'' (Some ''valid'') (bob_store ''basic'' ''active'' 5 50)))) = [''pro'']"
  by (simp add: webhook_defs example_defs database_defs response_defs)

text \<open>
  What the created/updated branch does once a user is found: the plan comes from the price
  id by \<open>SUBSCRIPTION_PLANS\<close>, and the user's subscription row gets the plan, the
  notification's status, its id as subscription reference and the period timestamps.
\<close>

lemma getPlanByPriceId_table:
  "getPlanByPriceId ''price_basic_monthly'' = Some p \<Longrightarrow> plan_id p = ''basic''"
  "getPlanByPriceId ''price_pro_monthly'' = Some p \<Longrightarrow> plan_id p = ''pro''"
  "getPlanByPriceId ''price_pro_yearly'' = Some p \<Longrightarrow> plan_id p = ''pro_yearly''"
  by (auto simp: getPlanByPriceId_def SUBSCRIPTION_PLANS_def)

lemma subscription_updated_writes_entitlement:
  assumes user: "getUserByEmail (customer sub) s = Some user"
    and price: "items_price_ids sub = priceId # rest"
    and p: "getPlanByPriceId priceId = Some p"
    and row: "filter (\<lambda>r. user_id r = users_id user) (subscriptions s) = [row]"
  shows "subscriptions (snd (subscription_updated sub m s))
         = map (\<lambda>r. if user_id r = users_id user
                      then r\<lparr>row_plan := plan_id p, row_status := object_status sub,
                             stripe_subscription_id := Some (object_id sub),
                             current_period_start := Some (object_period_start sub * 1000),
                             current_period_end := Some (object_period_end sub * 1000)\<rparr>
                      else r) (subscriptions s)"
proof -
  let ?upd = "\<lambda>r. r\<lparr>row_plan := plan_id p, row_status := object_status sub,
                       stripe_subscription_id := Some (object_id sub),
                       current_period_start := Some (object_period_start sub * 1000),
                       current_period_end := Some (object_period_end sub * 1000)\<rparr>"
  let ?s1 = "s\<lparr>subscriptions := map (\<lambda>r. if user_id r = users_id user then ?upd r else r) (subscriptions s)\<rparr>"
  have u: "updateSubscription (users_id user) ?upd s = Inr (?upd row, ?s1)"
    using row by (simp add: updateSubscription_def single_def)
  show ?thesis
  proof (cases "getOrCreateUsageTracking (users_id user) m ?s1")
    case (Inl err)
    with user price p u show ?thesis by (simp add: subscription_updated_def)
  next
    case (Inr q)
    obtain usage s2 where q: "q = (usage, s2)" by (cases q)
    with Inr have "subscriptions s2 = subscriptions ?s1"
      using getOrCreateUsageTracking_row by blast
    with user price p u Inr q show ?thesis by (simp add: subscription_updated_def)
  qed
qed

text \<open>
  Two of the ways a branch ends: a notification of a kind the adapter does not know is
  acknowledged and changes nothing; a deletion or an invoice whose subscription reference
  no stored subscription carries (or more than one) makes \<open>getSubscriptionByStripeId\<close>
  raise.
\<close>

lemma unrecognized_kind_is_acknowledged:
  assumes "constructEvent raw signature = Inr ev"
    and "event_type ev \<notin> {''customer.subscription.created'', ''customer.subscription.updated'',
                           ''customer.subscription.deleted'', ''invoice.payment_succeeded'',
                           ''invoice.payment_failed''}"
  shows "webhook constructEvent m raw signature s = (received, s)"
  using assms by (simp add: webhook_def handleWebhook_def process_event_def)

lemma unknown_subscription_raises:
  assumes "getSubscriptionByStripeId (object_id obj) s = Inl err"
  shows "subscription_deleted obj m s = (Some err, s)"
  using assms by (simp add: subscription_deleted_def)

text \<open>
  C8, as the code has it. The route has one \<open>try\<close> around verification and the
  \<open>switch\<close>, and one \<open>catch\<close>. For a verified notification the answer is the
  acknowledgement \<open>{received: true}\<close> exactly when its branch raised no error; an error
  raised in the branch is answered with status 400 and \<open>Webhook error\<close>, like a failed
  verification, and the store is left as the branch had it when it raised.
\<close>

theorem acknowledged_iff_branch_succeeds:
  assumes "constructEvent raw signature = Inr ev"
  shows "(fst (webhook constructEvent m raw signature s) = received)
           = (fst (process_event ev m s) = None)
       \<and> fst (webhook constructEvent m raw signature s)
           = (case fst (process_event ev m s) of None \<Rightarrow> received | Some err \<Rightarrow> webhook_error err)
       \<and> snd (webhook constructEvent m raw signature s) = snd (process_event ev m s)
       \<and> http_status (webhook_error err) = 400
       \<and> http_status received = 200"
  using assms
  by (auto simp: webhook_def handleWebhook_def received_def webhook_error_def
      split: prod.splits option.splits)

theorem acknowledged_iff_branch_succeeds_witness:
  "signed_event \<lparr>event_type = ''invoice.payment_succeeded'',
                  event_object = (stripe_sub ''in_1'' ''cus_1'' ''paid'' [])\<lparr>invoice_subscription := Some ''sub_1''\<rparr>\<rparr>
       ''{}'' (Some ''valid'')
     = Inr \<lparr>event_type = ''invoice.payment_succeeded'',
            event_object = (stripe_sub ''in_1'' ''cus_1'' ''paid'' [])\<lparr>invoice_subscription := Some ''sub_1''\<rparr>\<rparr>
   \<and> webhook (signed_event \<lparr>event_type = ''invoice.payment_succeeded'',
                  event_object = (stripe_sub ''in_1'' ''cus_1'' ''paid'' [])\<lparr>invoice_subscription := Some ''sub_1''\<rparr>\<rparr>)
        ''2025-07'' ''{}'' (Some ''valid'') (bob_store ''basic'' ''active'' 50 50)
     = (received, bob_store ''basic'' ''active'' 0 50)"
  using acknowledged_iff_branch_succeeds
    [of "signed_event \<lparr>event_type = ''invoice.payment_succeeded'',
                  event_object = (stripe_sub ''in_1'' ''cus_1'' ''paid'' [])\<lparr>invoice_subscription := Some ''sub_1''\<rparr>\<rparr>"
        "''{}''" "Some ''valid''" _ "''2025-07''" "bob_store ''basic'' ''active'' 50 50"]
  by (simp add: webhook_defs example_defs database_defs response_defs prod_eq_iff)

text \<open>
  C8 as stated fails: a verified \<open>customer.subscription.deleted\<close> notification whose
  subscription id no stored subscription carries makes \<open>getSubscriptionByStripeId\<close>
  raise, and the adapter answers 400 instead of acknowledging.
\<close>

theorem branch_error_is_400_counterexample:
  "signed_event \<lparr>event_type = ''customer.subscription.deleted'',
                  event_object = stripe_sub ''sub_9'' ''cus_1'' ''canceled'' ''price_basic_monthly''\<rparr>
       ''{}'' (Some ''valid'')
     = Inr \<lparr>event_type = ''customer.subscription.deleted'',
            event_object = stripe_sub ''sub_9'' ''cus_1'' ''canceled'' ''price_basic_monthly''\<rparr>
   \<and> http_status (fst (webhook (signed_event \<lparr>event_type = ''customer.subscription.deleted'',
              event_object = stripe_sub ''sub_9'' ''cus_1'' ''canceled'' ''price_basic_monthly''\<rparr>)
          ''2025-07'' ''{}'' (Some ''valid'') (bob_store ''basic'' ''active'' 5 50))) = 400
   \<and> fst (webhook (signed_event \<lparr>event_type = ''customer.subscription.deleted'',
              event_object = stripe_sub ''sub_9'' ''cus_1'' ''canceled'' ''price_basic_monthly''\<rparr>)
          ''2025-07'' ''{}'' (Some ''valid'') (bob_store ''basic'' ''active'' 5 50)) \<noteq> received
   \<and> snd (webhook (signed_event \<lparr>event_type = ''customer.subscription.deleted'',
              event_object = stripe_sub ''sub_9'' ''cus_1'' ''canceled'' ''price_basic_monthly''\<rparr>)
          ''2025-07'' ''{}'' (Some ''valid'') (bob_store ''basic'' ''active'' 5 50))
     = bob_store ''basic'' ''active'' 5 50"
  by (simp add: webhook_defs example_defs database_defs response_defs)

section \<open>The usage invariant\<close>

text \<open>Every write keeps \<open>usage_ok\<close> of all usage rows, which implies \<open>within_limit\<close>.\<close>

lemma usage_ok_within_limit: "usage_ok r \<Longrightarrow> within_limit r"
  by (auto simp: usage_ok_def within_limit_def)

lemma getOrCreateUsageTracking_ok:
  assumes "list_all usage_ok (usage_tracking s)"
    and "getOrCreateUsageTracking userId m s = Inr (r, s')"
  shows "list_all usage_ok (usage_tracking s')"
proof (cases "filter (\<lambda>r. usage_user_id r = userId \<and> month r = m) (usage_tracking s)")
  case Nil
  with assms show ?thesis
    by (auto simp: getOrCreateUsageTracking_def insert_usage_def Let_def usage_ok_def
        split: js_value.splits if_splits dest: getRequestLimitForPlan_Num)
next
  case (Cons a rest)
  with assms show ?thesis
    by (cases rest)
       (auto simp: getOrCreateUsageTracking_def insert_usage_def Let_def usage_ok_def
        split: js_value.splits if_splits dest: getRequestLimitForPlan_Num)
qed

lemma list_all_map_if:
  assumes "\<And>x. x \<in> set xs \<Longrightarrow> P (if Q x then f x else x)"
  shows "list_all P (map (\<lambda>x. if Q x then f x else x) xs)"
  using assms by (induction xs) auto

lemma resetMonthlyUsage_ok:
  assumes "list_all usage_ok (usage_tracking s)"
    and "resetMonthlyUsage userId m s = Inr (r', s')"
  shows "list_all usage_ok (usage_tracking s')"
proof -
  have s': "usage_tracking s' =
      map (\<lambda>r. if usage_user_id r = userId \<and> month r = m
                then r\<lparr>requests_used := 0\<rparr> else r) (usage_tracking s)"
    using assms(2) by (auto simp: resetMonthlyUsage_def single_def split: list.splits)
  have "usage_ok (if usage_user_id x = userId \<and> month x = m then x\<lparr>requests_used := 0\<rparr> else x)"
    if "x \<in> set (usage_tracking s)" for x
    using assms(1) that by (auto simp: list_all_iff usage_ok_def)
  then show ?thesis unfolding s' by (rule list_all_map_if)
qed

lemma updateSubscription_usage:
  "updateSubscription userId updates s = Inr (r, s') \<Longrightarrow> usage_tracking s' = usage_tracking s"
  by (auto simp: updateSubscription_def split: sum.splits)

lemma authenticateToken_ok:
  assumes "list_all usage_ok (usage_tracking (ctx_store c))"
    and "authenticateToken verify m req c = (res, c')"
  shows "list_all usage_ok (usage_tracking (ctx_store c'))"
  using assms
  by (auto simp: authenticateToken_def Let_def dest: getOrCreateUsageTracking_ok
      split: option.splits sum.splits if_splits prod.splits)

text \<open>
  A request to a route that records usage leaves the store as \<open>authenticateToken\<close> left
  it: the later steps write nothing.
\<close>

lemma recipes_generate_store:
  "ctx_store (snd (run_chain (recipes_generate verify m schema act) req (fresh s)))
   = ctx_store (snd (authenticateToken verify m req (fresh s)))"
proof (cases "authenticateToken verify m req (fresh s)")
  case (Pair res c)
  show ?thesis
  proof (cases res)
    case (Some a)
    with Pair show ?thesis by (simp add: recipes_generate_def)
  next
    case None
    with Pair have a: "authenticateToken verify m req (fresh s) = (None, c)" by simp
    have s1: "\<And>rest. run_chain (authenticateToken verify m # rest) req (fresh s) = run_chain rest req c"
      using a by simp
    show ?thesis
      unfolding recipes_generate_def s1 after_authenticate_store
      using a by simp
  qed
qed

lemma meal_plans_generate_store:
  "ctx_store (snd (run_chain (meal_plans_generate verify m schema act) req (fresh s)))
   = ctx_store (snd (authenticateToken verify m req (fresh s)))"
proof (cases "authenticateToken verify m req (fresh s)")
  case (Pair res c)
  show ?thesis
  proof (cases res)
    case (Some a)
    with Pair show ?thesis by (simp add: meal_plans_generate_def)
  next
    case None
    with Pair have a: "authenticateToken verify m req (fresh s) = (None, c)" by simp
    have s1: "\<And>rest. run_chain (authenticateToken verify m # rest) req (fresh s) = run_chain rest req c"
      using a by simp
    show ?thesis
      unfolding meal_plans_generate_def s1 after_authenticate_store
      using a by simp
  qed
qed

lemma recipes_substitutions_store:
  "ctx_store (snd (run_chain (recipes_substitutions verify m schema act) req (fresh s)))
   = ctx_store (snd (authenticateToken verify m req (fresh s)))"
proof (cases "authenticateToken verify m req (fresh s)")
  case (Pair res c)
  show ?thesis
  proof (cases res)
    case (Some a)
    with Pair show ?thesis by (simp add: recipes_substitutions_def)
  next
    case None
    with Pair have a: "authenticateToken verify m req (fresh s) = (None, c)" by simp
    obtain r2 c2 where p: "requirePlan [''basic'', ''pro'', ''pro_yearly''] req c = (r2, c2)"
      by (cases "requirePlan [''basic'', ''pro'', ''pro_yearly''] req c")
    then have c2: "c2 = c" by (rule requirePlan_ctx)
    show ?thesis
    proof (cases r2)
      case (Some b)
      with p c2 have g: "requirePlan [''basic'', ''pro'', ''pro_yearly''] req c = (Some b, c)" by simp
      show ?thesis
        using a g by (simp add: recipes_substitutions_def)
    next
      case n: None
      with p c2 have g: "requirePlan [''basic'', ''pro'', ''pro_yearly''] req c = (None, c)" by simp
      have s1: "\<And>rest. run_chain (authenticateToken verify m
                        # requirePlan [''basic'', ''pro'', ''pro_yearly''] # rest) req (fresh s)
                       = run_chain rest req c"
        using a g by simp
      show ?thesis
        unfolding recipes_substitutions_def s1 after_authenticate_store
        using a by simp
    qed
  qed
qed

lemma authenticate_store_ok:
  assumes "list_all usage_ok (usage_tracking s)"
  shows "list_all usage_ok (usage_tracking (ctx_store (snd (authenticateToken verify m req (fresh s)))))"
proof -
  obtain res c where a: "authenticateToken verify m req (fresh s) = (res, c)"
    by (cases "authenticateToken verify m req (fresh s)")
  with assms show ?thesis
    using authenticateToken_ok [of "fresh s" verify m req res c] by (simp add: fresh_def)
qed

lemma subscription_updated_ok:
  assumes ok: "list_all usage_ok (usage_tracking s)"
  shows "list_all usage_ok (usage_tracking (snd (subscription_updated sub m s)))"
proof (cases "getUserByEmail (customer sub) s")
  case None
  with ok show ?thesis by (simp add: subscription_updated_def)
next
  case (Some user)
  show ?thesis
  proof (cases "items_price_ids sub")
    case Nil
    with Some ok show ?thesis by (simp add: subscription_updated_def)
  next
    case (Cons priceId rest)
    show ?thesis
    proof (cases "getPlanByPriceId priceId")
      case None
      with Some Cons ok show ?thesis by (simp add: subscription_updated_def)
    next
      case p: (Some p)
      let ?upd = "\<lambda>r. r\<lparr>row_plan := plan_id p, row_status := object_status sub,
                           stripe_subscription_id := Some (object_id sub),
                           current_period_start := Some (object_period_start sub * 1000),
                           current_period_end := Some (object_period_end sub * 1000)\<rparr>"
      show ?thesis
      proof (cases "updateSubscription (users_id user) ?upd s")
        case (Inl err)
        with Some Cons p ok show ?thesis by (simp add: subscription_updated_def)
      next
        case (Inr q)
        obtain row s1 where q: "q = (row, s1)" by (cases q)
        with Inr have "usage_tracking s1 = usage_tracking s"
          using updateSubscription_usage by blast
        with ok have ok1: "list_all usage_ok (usage_tracking s1)" by simp
        show ?thesis
        proof (cases "getOrCreateUsageTracking (users_id user) m s1")
          case e: (Inl err)
          with Some Cons p Inr q ok1 show ?thesis by (simp add: subscription_updated_def)
        next
          case g: (Inr q2)
          obtain usage s2 where q2: "q2 = (usage, s2)" by (cases q2)
          with g ok1 have "list_all usage_ok (usage_tracking s2)"
            using getOrCreateUsageTracking_ok by blast
          with Some Cons p Inr q g q2 show ?thesis by (simp add: subscription_updated_def)
        qed
      qed
    qed
  qed
qed

lemma subscription_deleted_ok:
  assumes ok: "list_all usage_ok (usage_tracking s)"
  shows "list_all usage_ok (usage_tracking (snd (subscription_deleted obj m s)))"
proof (cases "getSubscriptionByStripeId (object_id obj) s")
  case (Inl err)
  with ok show ?thesis by (simp add: subscription_deleted_def)
next
  case (Inr cancelledSub)
  let ?upd = "\<lambda>r. r\<lparr>row_plan := ''free'', row_status := ''cancelled'',
                       stripe_subscription_id := None,
                       current_period_start := None, current_period_end := None\<rparr>"
  show ?thesis
  proof (cases "updateSubscription (user_id cancelledSub) ?upd s")
    case e: (Inl err)
    with Inr ok show ?thesis by (simp add: subscription_deleted_def)
  next
    case u: (Inr q)
    obtain row s1 where q: "q = (row, s1)" by (cases q)
    with u have "usage_tracking s1 = usage_tracking s"
      using updateSubscription_usage by blast
    with ok have ok1: "list_all usage_ok (usage_tracking s1)" by simp
    show ?thesis
    proof (cases "getOrCreateUsageTracking (user_id cancelledSub) m s1")
      case e: (Inl err)
      with Inr u q ok1 show ?thesis by (simp add: subscription_deleted_def)
    next
      case g: (Inr q2)
      obtain usage s2 where q2: "q2 = (usage, s2)" by (cases q2)
      with g ok1 have "list_all usage_ok (usage_tracking s2)"
        using getOrCreateUsageTracking_ok by blast
      with Inr u q g q2 show ?thesis by (simp add: subscription_deleted_def)
    qed
  qed
qed

lemma payment_succeeded_ok:
  assumes ok: "list_all usage_ok (usage_tracking s)"
  shows "list_all usage_ok (usage_tracking (snd (payment_succeeded invoice m s)))"
proof (cases "invoice_subscription invoice")
  case None
  with ok show ?thesis by (simp add: payment_succeeded_def)
next
  case (Some ref)
  show ?thesis
  proof (cases "ref = []")
    case True
    with Some ok show ?thesis by (simp add: payment_succeeded_def)
  next
    case False
    show ?thesis
    proof (cases "getSubscriptionByStripeId ref s")
      case (Inl err)
      with Some False ok show ?thesis by (simp add: payment_succeeded_def)
    next
      case (Inr sub)
      show ?thesis
      proof (cases "resetMonthlyUsage (user_id sub) m s")
        case e: (Inl err)
        with Some False Inr ok show ?thesis by (simp add: payment_succeeded_def)
      next
        case r: (Inr q)
        obtain row s1 where q: "q = (row, s1)" by (cases q)
        with r ok have "list_all usage_ok (usage_tracking s1)"
          using resetMonthlyUsage_ok by blast
        with Some False Inr r q show ?thesis by (simp add: payment_succeeded_def)
      qed
    qed
  qed
qed

lemma payment_failed_ok:
  assumes ok: "list_all usage_ok (usage_tracking s)"
  shows "list_all usage_ok (usage_tracking (snd (payment_failed invoice s)))"
proof (cases "invoice_subscription invoice")
  case None
  with ok show ?thesis by (simp add: payment_failed_def)
next
  case (Some ref)
  show ?thesis
  proof (cases "ref = []")
    case True
    with Some ok show ?thesis by (simp add: payment_failed_def)
  next
    case False
    show ?thesis
    proof (cases "getSubscriptionByStripeId ref s")
      case (Inl err)
      with Some False ok show ?thesis by (simp add: payment_failed_def)
    next
      case (Inr sub)
      show ?thesis
      proof (cases "updateSubscription (user_id sub) (\<lambda>r. r\<lparr>row_status := ''past_due''\<rparr>) s")
        case e: (Inl err)
        with Some False Inr ok show ?thesis by (simp add: payment_failed_def)
      next
        case u: (Inr q)
        obtain row s1 where q: "q = (row, s1)" by (cases q)
        with u have "usage_tracking s1 = usage_tracking s"
          using updateSubscription_usage by blast
        with Some False Inr u q ok show ?thesis by (simp add: payment_failed_def)
      qed
    qed
  qed
qed

lemma process_event_ok:
  assumes "list_all usage_ok (usage_tracking s)"
  shows "list_all usage_ok (usage_tracking (snd (process_event ev m s)))"
  using assms
  by (simp add: process_event_def subscription_updated_ok subscription_deleted_ok
      payment_succeeded_ok payment_failed_ok)

lemma webhook_store:
  "snd (webhook constructEvent m raw signature s) = s
   \<or> (\<exists>ev. snd (webhook constructEvent m raw signature s) = snd (process_event ev m s))"
proof (cases "handleWebhook constructEvent raw signature")
  case (Inl err)
  then show ?thesis by (simp add: webhook_def)
next
  case (Inr ev)
  obtain e s' where p: "process_event ev m s = (e, s')" by (cases "process_event ev m s")
  have "snd (webhook constructEvent m raw signature s) = snd (process_event ev m s)"
    using Inr p by (cases e) (simp_all add: webhook_def)
  then show ?thesis by blast
qed

lemma webhook_ok:
  assumes "list_all usage_ok (usage_tracking s)"
  shows "list_all usage_ok (usage_tracking (snd (webhook constructEvent m raw signature s)))"
  using webhook_store [of constructEvent m raw signature s] assms process_event_ok [OF assms]
  by auto

lemma register_ok:
  assumes ok: "list_all usage_ok (usage_tracking s)"
  shows "list_all usage_ok (usage_tracking (snd (register sign newId e n h m s)))"
proof (cases "getUserByEmail e s")
  case (Some existingUser)
  with ok show ?thesis by (simp add: register_def)
next
  case None
  show ?thesis
  proof (cases "createUser newId e n h s")
    case (Inl err)
    with None ok show ?thesis by (simp add: register_def)
  next
    case (Inr q)
    obtain user s1 where q: "q = (user, s1)" by (cases q)
    with Inr have u1: "usage_tracking s1 = usage_tracking s"
      by (auto simp: createUser_def Let_def split: if_splits)
    show ?thesis
    proof (cases "createSubscription (users_id user) ''free'' ''active'' s1")
      case e: (Inl err)
      with None Inr q u1 ok show ?thesis by (simp add: register_def)
    next
      case c: (Inr q2)
      obtain sub s2 where q2: "q2 = (sub, s2)" by (cases q2)
      with c have "usage_tracking s2 = usage_tracking s1"
        by (auto simp: createSubscription_def Let_def split: if_splits)
      with u1 ok have ok2: "list_all usage_ok (usage_tracking s2)" by simp
      show ?thesis
      proof (cases "getOrCreateUsageTracking (users_id user) m s2")
        case e: (Inl err)
        with None Inr q c q2 ok2 show ?thesis by (simp add: register_def)
      next
        case g: (Inr q3)
        obtain usage s3 where q3: "q3 = (usage, s3)" by (cases q3)
        with g ok2 have "list_all usage_ok (usage_tracking s3)"
          using getOrCreateUsageTracking_ok by blast
        with None Inr q c q2 g q3 show ?thesis by (simp add: register_def)
      qed
    qed
  qed
qed

lemma perform_ok:
  assumes "list_all usage_ok (usage_tracking s)"
  shows "list_all usage_ok (usage_tracking (perform x s))"
  using assms
  by (cases x)
     (simp_all add: register_ok authenticate_store_ok recipes_generate_store
        recipes_substitutions_store meal_plans_generate_store webhook_ok)

lemma perform_all_ok:
  "list_all usage_ok (usage_tracking s) \<Longrightarrow> list_all usage_ok (usage_tracking (perform_all xs s))"
  by (induction xs arbitrary: s) (simp_all add: perform_ok)

text \<open>
  C6. In every store state reached from the empty database by registrations, requests
  and billing notifications, every usage row whose limit is not \<open>-1\<close> has
  \<open>requests_used\<close> at most \<open>request_limit\<close>. The operations are those the claim lists:
  lazy creation (in \<open>authenticateToken\<close>, registration and the adapter), gate admission
  followed by the record-usage step, the created/updated notification with its rewrite
  of \<open>request_limit\<close>, the payment-success reset and the subscription deletion.
\<close>

theorem usage_never_exceeds_limit:
  "\<forall>r \<in> set (usage_tracking (perform_all xs empty_store)).
     request_limit r \<noteq> - 1 \<longrightarrow> requests_used r \<le> request_limit r"
proof -
  have "list_all usage_ok (usage_tracking (perform_all xs empty_store))"
    by (rule perform_all_ok) (simp add: empty_store_def)
  then show ?thesis by (auto simp: list_all_iff usage_ok_def)
qed

lemma alice_request_admitted: "perform alice_request (alice_store 0) = alice_store 0"
  by (simp add: alice_request_def route_defs middleware_defs example_defs database_defs)

lemma alice_after_history: "perform_all alice_history empty_store = alice_store 0"
proof -
  have "perform (Register (\<lambda>payload. ''good'') ''u1'' ''alice@example.com'' ''Alice'' ''$2a$10$hash''
                  ''2025-07'') empty_store = alice_store 0"
    by (simp add: register_def database_defs example_defs)
  then show ?thesis
    using alice_request_admitted by (simp add: alice_history_def)
qed

text \<open>
  After Alice's registration and four admitted requests her one usage row holds 0 of 5.
\<close>

theorem usage_never_exceeds_limit_witness:
  "usage_tracking (perform_all alice_history empty_store) = [alice_usage 0]
   \<and> request_limit (alice_usage 0) \<noteq> - 1
   \<and> requests_used (alice_usage 0) \<le> request_limit (alice_usage 0)"
  using usage_never_exceeds_limit [of alice_history]
  unfolding alice_after_history
  by (simp add: alice_store_def alice_usage_def)

text \<open>
  Why the invariant holds: the program never raises \<open>requests_used\<close>. A row is inserted
  with 0, the reset writes 0, \<open>Database.incrementUsage\<close> raises before it writes, and the
  rewrite of \<open>request_limit\<close> raises as well, so every row the program has written holds
  0 used and a limit of 5, 50 or \<open>-1\<close>.
\<close>

lemma usage_never_recorded:
  "r \<in> set (usage_tracking (perform_all xs empty_store)) \<Longrightarrow> requests_used r = 0"
proof -
  have "list_all usage_ok (usage_tracking (perform_all xs empty_store))"
    by (rule perform_all_ok) (simp add: empty_store_def)
  then show "r \<in> set (usage_tracking (perform_all xs empty_store)) \<Longrightarrow> requests_used r = 0"
    by (auto simp: list_all_iff usage_ok_def)
qed

text \<open>
  The same holds however requests and notifications interleave, since every write to the
  store is one of the helper calls of \<open>db_write\<close>.
\<close>

lemma db_write_ok:
  assumes "list_all usage_ok (usage_tracking s)"
  shows "list_all usage_ok (usage_tracking (db_write x s))"
proof (cases x)
  case (CreateUser newId e n h)
  with assms show ?thesis
    by (auto simp: createUser_def Let_def split: sum.splits)
next
  case (CreateSubscription userId p st)
  with assms show ?thesis
    by (auto simp: createSubscription_def Let_def split: sum.splits)
next
  case (UpdateSubscription userId updates)
  with assms show ?thesis
    by (auto split: sum.splits dest: updateSubscription_usage)
next
  case (GetOrCreateUsageTracking userId m)
  with assms show ?thesis
    by (auto split: sum.splits dest: getOrCreateUsageTracking_ok)
next
  case (IncrementUsage userId m)
  with assms show ?thesis
    by (simp add: Database_incrementUsage_def)
next
  case (ResetMonthlyUsage userId m)
  with assms show ?thesis
    by (auto split: sum.splits dest: resetMonthlyUsage_ok)
qed

lemma db_writes_ok:
  "list_all usage_ok (usage_tracking s) \<Longrightarrow> list_all usage_ok (usage_tracking (db_writes xs s))"
  by (induction xs arbitrary: s) (simp_all add: db_write_ok)

lemma usage_within_limit_under_interleaving:
  "r \<in> set (usage_tracking (db_writes xs empty_store)) \<Longrightarrow> within_limit r"
proof -
  have "list_all usage_ok (usage_tracking (db_writes xs empty_store))"
    by (rule db_writes_ok) (simp add: empty_store_def)
  then show "r \<in> set (usage_tracking (db_writes xs empty_store)) \<Longrightarrow> within_limit r"
    by (auto simp: list_all_iff usage_ok_within_limit)
qed

end
